theory Spec2Isabelle
  imports Complex_Main
begin

section \<open>Conventions of the embedding\<close>

text \<open>
  The module \<^verbatim>\<open>mne_g3d/viz.py\<close> is embedded function by function. Finite floating
  point values are idealised as real numbers (rounding is not modelled). Exceptions are
  values of the type \<open>error\<close>; a function that can raise returns \<open>error + 'a\<close>.
\<close>

datatype error =
    ValueError
  | NotImplementedError
  | TypeError
  | KeyError
  | IndexError
  | NameError
  | AttributeError
  | TraitError
  | ZeroDivisionError

text \<open>
  The control points and the scale points returned by \<^verbatim>\<open>_limits_to_control_points\<close>
  are three numbers each; \<open>pt0\<close>, \<open>pt1\<close> are the indices \<^verbatim>\<open>[0]\<close>, \<^verbatim>\<open>[1]\<close>
  and \<open>pt_last\<close> is \<^verbatim>\<open>[-1]\<close> (and \<^verbatim>\<open>[2]\<close>).
\<close>

type_synonym pts = "real \<times> real \<times> real"

fun pt0 :: "pts \<Rightarrow> real" where
  "pt0 (x, y, z) = x"

fun pt1 :: "pts \<Rightarrow> real" where
  "pt1 (x, y, z) = y"

fun pt_last :: "pts \<Rightarrow> real" where
  "pt_last (x, y, z) = z"

text \<open>A colour is a row (red, green, blue, alpha) of a colormap table.\<close>

type_synonym rgba = "real \<times> real \<times> real \<times> real"

fun alpha_of :: "rgba \<Rightarrow> real" where
  "alpha_of (r, g, bl, a) = a"

fun with_alpha :: "rgba \<Rightarrow> real \<Rightarrow> rgba" where
  "with_alpha (r, g, bl, a) a' = (r, g, bl, a')"

text \<open>
  \<^verbatim>\<open>np.clip(a, a_min, a_max)\<close> returns a new array and leaves its argument as it is
  (no \<^verbatim>\<open>out=\<close> argument is given anywhere in the module).
\<close>

definition np_clip :: "real list \<Rightarrow> real \<Rightarrow> real \<Rightarrow> real list" where
  "np_clip a a_min a_max = map (\<lambda>x. min (max x a_min) a_max) a"

section \<open>\<^verbatim>\<open>plot_brain_mesh\<close>: the alpha channel of the colormap\<close>

text \<open>
  Lines 94 to 111, the branch \<^verbatim>\<open>isinstance(rgb_cmap, str)\<close> (the 'hot' colormap).
  \<open>hot_alpha_step\<close> is the body of the loop over \<^verbatim>\<open>range(0, rgb_cmap.N)\<close>; an entry
  that no branch assigns keeps the 1 of \<^verbatim>\<open>np.ones\<close>. When the two control points are
  equal numpy's \<open>k\<close> is infinite, but the only branch that reads \<open>k\<close> and \<open>b\<close> is then
  never taken.
\<close>

definition hot_alpha_step :: "pts \<Rightarrow> real \<Rightarrow> real \<Rightarrow> real \<Rightarrow> nat \<Rightarrow> real list \<Rightarrow> real list" where
  "hot_alpha_step ctrl_pts step k b i alphas =
     (let curr_pos = real i * step in
      if curr_pos < pt0 ctrl_pts then alphas[i := 0]
      else if curr_pos \<ge> pt0 ctrl_pts \<and> curr_pos < pt1 ctrl_pts then alphas[i := k * curr_pos + b]
      else alphas)"

definition hot_alphas :: "pts \<Rightarrow> pts \<Rightarrow> nat \<Rightarrow> real list" where
  "hot_alphas ctrl_pts scale_pts N =
     (let alphas = replicate N 1;
          step = pt_last scale_pts / real N;
          k = 1 / (pt1 ctrl_pts - pt0 ctrl_pts);
          b = - pt0 ctrl_pts * k
      in fold (hot_alpha_step ctrl_pts step k b) [0..<N] alphas)"

text \<open>
  Lines 112 to 130, the two-tailed 'mne' colormap: the positions start at
  \<^verbatim>\<open>scale_pts[0]\<close>.
\<close>

definition mne_alpha_step ::
  "pts \<Rightarrow> pts \<Rightarrow> real \<Rightarrow> real \<Rightarrow> real \<Rightarrow> real \<Rightarrow> nat \<Rightarrow> real list \<Rightarrow> real list" where
  "mne_alpha_step ctrl_pts scale_pts step k_pos k_neg b i alphas =
     (let curr_pos = real i * step + pt0 scale_pts in
      if curr_pos > - pt0 ctrl_pts \<and> curr_pos < pt0 ctrl_pts then alphas[i := 0]
      else if curr_pos \<ge> pt0 ctrl_pts \<and> curr_pos < pt1 ctrl_pts then alphas[i := k_pos * curr_pos + b]
      else if curr_pos \<le> - pt0 ctrl_pts \<and> curr_pos > - pt1 ctrl_pts then alphas[i := k_neg * curr_pos + b]
      else alphas)"

definition mne_alphas :: "pts \<Rightarrow> pts \<Rightarrow> nat \<Rightarrow> real list" where
  "mne_alphas ctrl_pts scale_pts N =
     (let alphas = replicate N 1;
          step = (pt_last scale_pts - pt0 scale_pts) / real N;
          k_pos = 1 / (pt1 ctrl_pts - pt0 ctrl_pts);
          k_neg = - k_pos;
          b = - pt0 ctrl_pts * k_pos
      in fold (mne_alpha_step ctrl_pts scale_pts step k_pos k_neg b) [0..<N] alphas)"

text \<open>The scalar position of entry \<open>i\<close> of the 'mne' table.\<close>

definition mne_pos :: "pts \<Rightarrow> nat \<Rightarrow> nat \<Rightarrow> real" where
  "mne_pos scale_pts N i = real i * ((pt_last scale_pts - pt0 scale_pts) / real N) + pt0 scale_pts"

text \<open>
  The limit colormap returned by \<^verbatim>\<open>_limits_to_control_points\<close> is either the name of a
  matplotlib colormap or a colormap object; an object is represented by its table
  \<^verbatim>\<open>rgb_cmap(np.arange(rgb_cmap.N))\<close>.
\<close>

datatype lim_cmap = CmapStr string | CmapObj "rgba list"

text \<open>
  Lines 94 to 134: the table handed to \<^verbatim>\<open>ListedColormap\<close>. \<open>get_cmap\<close> stands for
  \<^verbatim>\<open>cm.get_cmap\<close> followed by the evaluation of the colormap at \<^verbatim>\<open>np.arange(N)\<close>.
  Line 132 clips a copy of \<open>alphas\<close> and drops it; line 133 writes \<open>alphas\<close> into the
  last column.
\<close>

definition brain_cmap_table :: "(string \<Rightarrow> rgba list) \<Rightarrow> pts \<Rightarrow> lim_cmap \<Rightarrow> pts \<Rightarrow> rgba list" where
  "brain_cmap_table get_cmap ctrl_pts rgb_cmap scale_pts =
     (let (cmap, alphas) =
            (case rgb_cmap of
               CmapStr name \<Rightarrow>
                 (let cmap = get_cmap name in (cmap, hot_alphas ctrl_pts scale_pts (length cmap)))
             | CmapObj tab \<Rightarrow> (tab, mne_alphas ctrl_pts scale_pts (length tab)));
          clipped = np_clip alphas 0 1
      in map2 with_alpha cmap alphas)"

section \<open>Floating point results that are not finite\<close>

text \<open>
  numpy divides by zero without raising: the result is an infinity or a NaN (with a
  warning) and every value computed from it is again not finite. \<open>NonFin\<close> stands for
  such a value. Python's own float division raises \<^verbatim>\<open>ZeroDivisionError\<close> instead.
\<close>

datatype npfloat = Fin real | NonFin

fun fmul :: "npfloat \<Rightarrow> npfloat \<Rightarrow> npfloat" where
  "fmul (Fin x) (Fin y) = Fin (x * y)"
| "fmul _ _ = NonFin"

fun fadd :: "npfloat \<Rightarrow> npfloat \<Rightarrow> npfloat" where
  "fadd (Fin x) (Fin y) = Fin (x + y)"
| "fadd _ _ = NonFin"

fun fsub :: "npfloat \<Rightarrow> npfloat \<Rightarrow> npfloat" where
  "fsub (Fin x) (Fin y) = Fin (x - y)"
| "fsub _ _ = NonFin"

definition np_div :: "real \<Rightarrow> real \<Rightarrow> npfloat" where
  "np_div x y = (if y = 0 then NonFin else Fin (x / y))"

definition py_div :: "real \<Rightarrow> real \<Rightarrow> error + real" where
  "py_div x y = (if y = 0 then Inl ZeroDivisionError else Inr (x / y))"

text \<open>
  \<^verbatim>\<open>np.clip\<close> on an array that may hold values that are not finite. A NaN stays a
  NaN; \<open>NonFin\<close> does not tell an infinity (which numpy moves to a bound) from a NaN and
  is kept. Every call in the module drops the result.
\<close>

fun clip1 :: "real \<Rightarrow> real \<Rightarrow> npfloat \<Rightarrow> npfloat" where
  "clip1 a_min a_max (Fin x) = Fin (min (max x a_min) a_max)"
| "clip1 a_min a_max NonFin = NonFin"

definition np_clip_float :: "npfloat list \<Rightarrow> real \<Rightarrow> real \<Rightarrow> npfloat list" where
  "np_clip_float a a_min a_max = map (clip1 a_min a_max) a"

text \<open>\<^verbatim>\<open>k * data + b\<close> on one entry of the array.\<close>

definition affine :: "npfloat \<Rightarrow> npfloat \<Rightarrow> real \<Rightarrow> npfloat" where
  "affine k b x = fadd (fmul k (Fin x)) b"

fun in_unit_interval :: "npfloat \<Rightarrow> bool" where
  "in_unit_interval (Fin x) = (0 \<le> x \<and> x \<le> 1)"
| "in_unit_interval NonFin = False"

section \<open>The ipyvolume scene\<close>

text \<open>
  Mesh and figure objects live in stores and are referred to by their index, so that a
  handler that assigns \<^verbatim>\<open>mesh.color\<close> is seen through every reference to the mesh.
\<close>

type_synonym vertex = "real \<times> real \<times> real"
type_synonym face = "nat \<times> nat \<times> nat"

datatype colour = ColStr string | ColArr "rgba list"

record mesh =
  mesh_x :: "real list"
  mesh_y :: "real list"
  mesh_z :: "real list"
  mesh_triangles :: "face list"
  mesh_color :: colour
  mesh_blended :: bool

record figure =
  fig_width :: int
  fig_height :: int
  fig_animation :: int
  fig_meshes :: "nat list"
  fig_box :: bool
  fig_axes :: bool
  fig_background :: "string option"
  fig_view :: "(int \<times> int) option"
  fig_squarelim :: bool

text \<open>A tree of notebook widgets; a figure is named by its index in the store.\<close>

datatype widget =
    HTML string string
  | FigureW nat
  | HBox "widget list"
  | VBox "widget list"
  | Play nat int
  | Slider nat
  | Label
  | CbarFigure
  | BoundedFloatText string
  | Button string

record scene =
  meshes :: "mesh list"
  figures :: "figure list"
  current :: "nat option"
  container :: "widget list"
  shown :: bool

definition ipv_figure :: "int \<Rightarrow> int \<Rightarrow> scene \<Rightarrow> nat \<times> scene" where
  \<comment> \<open>\<^verbatim>\<open>ipv.figure(width, height, lighting=True)\<close> without a key: a new figure in a new
      container, both made current\<close>
  "ipv_figure w h s =
     (let fig = length (figures s);
          f = \<lparr>fig_width = w, fig_height = h, fig_animation = 1000, fig_meshes = [],
               fig_box = True, fig_axes = True, fig_background = None, fig_view = None,
               fig_squarelim = False\<rparr>
      in (fig, s\<lparr>figures := figures s @ [f], current := Some fig, container := [FigureW fig]\<rparr>))"

definition gcf :: "scene \<Rightarrow> nat \<times> scene" where
  \<comment> \<open>\<^verbatim>\<open>ipv.gcf()\<close>: the current figure, created with the defaults when there is none\<close>
  "gcf s = (case current s of Some fig \<Rightarrow> (fig, s) | None \<Rightarrow> ipv_figure 400 500 s)"

definition update_current :: "(figure \<Rightarrow> figure) \<Rightarrow> scene \<Rightarrow> scene" where
  "update_current upd s =
     (let (fig, s) = gcf s in s\<lparr>figures := (figures s)[fig := upd (figures s ! fig)]\<rparr>)"

definition plot_trisurf ::
  "real list \<Rightarrow> real list \<Rightarrow> real list \<Rightarrow> face list \<Rightarrow> colour \<Rightarrow> scene \<Rightarrow> nat \<times> scene" where
  "plot_trisurf x y z triangles color s =
     (let m = length (meshes s);
          s = s\<lparr>meshes := meshes s @
                [\<lparr>mesh_x = x, mesh_y = y, mesh_z = z, mesh_triangles = triangles,
                  mesh_color = color, mesh_blended = False\<rparr>]\<rparr>
      in (m, update_current (\<lambda>f. f\<lparr>fig_meshes := fig_meshes f @ [m]\<rparr>) s))"

definition set_material :: "nat \<Rightarrow> scene \<Rightarrow> scene" where
  \<comment> \<open>lines 228 to 237: the alpha blending material of the overlay\<close>
  "set_material m s = s\<lparr>meshes := (meshes s)[m := (meshes s ! m)\<lparr>mesh_blended := True\<rparr>]\<rparr>"

definition set_mesh_color :: "nat \<Rightarrow> colour \<Rightarrow> scene \<Rightarrow> scene" where
  \<comment> \<open>\<^verbatim>\<open>mesh.color = c\<close>\<close>
  "set_mesh_color m c s = s\<lparr>meshes := (meshes s)[m := (meshes s ! m)\<lparr>mesh_color := c\<rparr>]\<rparr>"

definition style_off :: "string \<Rightarrow> scene \<Rightarrow> scene" where
  \<comment> \<open>\<^verbatim>\<open>ipv.style.box_off()\<close>, \<^verbatim>\<open>axes_off()\<close> and \<^verbatim>\<open>background_color(background)\<close>\<close>
  "style_off background s =
     update_current (\<lambda>f. f\<lparr>fig_box := False, fig_axes := False,
        fig_background := Some background\<rparr>) s"

definition ipv_view :: "int \<Rightarrow> int \<Rightarrow> scene \<Rightarrow> scene" where
  \<comment> \<open>\<^verbatim>\<open>ipv.view(azimuth, elevation)\<close>\<close>
  "ipv_view azimuth elevation s =
     update_current (\<lambda>f. f\<lparr>fig_view := Some (azimuth, elevation)\<rparr>) s"

definition squarelim :: "scene \<Rightarrow> scene" where
  "squarelim s = update_current (\<lambda>f. f\<lparr>fig_squarelim := True\<rparr>) s"

definition style_view :: "string \<Rightarrow> int \<Rightarrow> int \<Rightarrow> scene \<Rightarrow> scene" where
  \<comment> \<open>the five calls in the order of lines 172 to 177 and 499 to 504\<close>
  "style_view background azimuth elevation s =
     squarelim (ipv_view azimuth elevation (style_off background s))"

definition ipv_show :: "scene \<Rightarrow> scene" where
  "ipv_show s = s\<lparr>shown := True\<rparr>"

section \<open>\<^verbatim>\<open>plot_hemisphere_mesh\<close>\<close>

definition plot_hemisphere_mesh ::
  "vertex list \<Rightarrow> face list \<Rightarrow> colour \<Rightarrow> colour option \<Rightarrow> scene \<Rightarrow> (nat \<times> nat option) \<times> scene" where
  "plot_hemisphere_mesh vertices faces color act_colors s =
     (let x = map (\<lambda>(x, y, z). x) vertices;
          y = map (\<lambda>(x, y, z). y) vertices;
          z = map (\<lambda>(x, y, z). z) vertices;
          (mesh_widget, s) = plot_trisurf x y z faces color s
      in case act_colors of
           None \<Rightarrow> ((mesh_widget, None), s)
         | Some act \<Rightarrow>
             (let (mesh_overlay, s) = plot_trisurf x y z faces act s
              in ((mesh_widget, Some mesh_overlay), set_material mesh_overlay s)))"

section \<open>\<^verbatim>\<open>plot_brain_mesh\<close>\<close>

text \<open>
  What the module takes from other modules and libraries: the control points
  (\<^verbatim>\<open>_limits_to_control_points\<close>), the table of a named colormap, the evaluation of a
  \<^verbatim>\<open>ListedColormap\<close> built from a table, and \<^verbatim>\<open>offset_hemi\<close>.
\<close>

record brain_env =
  limits_to_control_points :: "real list \<Rightarrow> string \<Rightarrow> pts \<times> lim_cmap \<times> pts"
  cm_get_cmap :: "string \<Rightarrow> rgba list"
  listed_call :: "rgba list \<Rightarrow> npfloat \<Rightarrow> rgba"
  offset_hemi :: "vertex list \<Rightarrow> string \<Rightarrow> real \<Rightarrow> vertex list"

text \<open>
  Lines 86 to 152. The result holds the two local variables \<^verbatim>\<open>lh_act_colors\<close> and
  \<^verbatim>\<open>rh_act_colors\<close>, which stay unbound (\<open>None\<close>) when there is no activation data.
  \<^verbatim>\<open>act_data.min()\<close> raises \<^verbatim>\<open>ValueError\<close> on an empty array and
  \<^verbatim>\<open>len(lh_vertices)\<close> raises \<^verbatim>\<open>TypeError\<close> on \<^verbatim>\<open>None\<close>.
\<close>

definition brain_act_colors ::
  "brain_env \<Rightarrow> vertex list option \<Rightarrow> real list option \<Rightarrow> string \<Rightarrow>
   error + (colour option \<times> colour option)" where
  "brain_act_colors env lh_vertices act_data cmap_str =
     (case act_data of
        None \<Rightarrow> Inr (None, None)
      | Some act_data \<Rightarrow>
          (let (ctrl_pts, rgb_cmap, scale_pts) = limits_to_control_points env act_data cmap_str;
               cmap = brain_cmap_table (cm_get_cmap env) ctrl_pts rgb_cmap scale_pts
           in case act_data of
                [] \<Rightarrow> Inl ValueError
              | d # ds \<Rightarrow>
                  (let dt_min = fold min ds d;
                       dt_max = fold max ds d;
                       k = np_div 1 (dt_max - dt_min);
                       b = fsub (Fin 1) (fmul k (Fin dt_max));
                       act_data = map (affine k b) act_data;
                       clipped = np_clip_float act_data 0 1
                   in case lh_vertices of
                        None \<Rightarrow> Inl TypeError
                      | Some lh \<Rightarrow>
                          (let lh_act_data = take (length lh) act_data;
                               rh_act_data = drop (length lh) act_data;
                               lh_act_colors = map (listed_call env cmap) lh_act_data;
                               rh_act_colors = map (listed_call env cmap) rh_act_data
                           in Inr (Some (ColArr lh_act_colors), Some (ColArr rh_act_colors))))))"

text \<open>
  Lines 154 to 170, once for each hemisphere: the mesh is drawn when the vertices and
  the faces are given; reading an unbound \<^verbatim>\<open>act_colors\<close> variable raises
  \<^verbatim>\<open>NameError\<close>.
\<close>

definition brain_hemi ::
  "brain_env \<Rightarrow> string \<Rightarrow> vertex list option \<Rightarrow> face list option \<Rightarrow> colour \<Rightarrow> real option \<Rightarrow>
   colour option \<Rightarrow> scene \<Rightarrow> (error + nat option) \<times> scene" where
  "brain_hemi env h vertices faces color offset act_colors s =
     (case (vertices, faces) of
        (Some vs, Some fs) \<Rightarrow>
          (let vs = (case offset of None \<Rightarrow> vs | Some off \<Rightarrow> offset_hemi env vs h off)
           in case act_colors of
                None \<Rightarrow> (Inl NameError, s)
              | Some act \<Rightarrow>
                  (let ((mesh_widget, overlay), s) = plot_hemisphere_mesh vs fs color (Some act) s
                   in (Inr (Some mesh_widget), s)))
      | _ \<Rightarrow> (Inr None, s))"

record brain_args =
  rh_vertices :: "vertex list option"
  lh_vertices :: "vertex list option"
  rh_faces :: "face list option"
  lh_faces :: "face list option"
  rh_color :: colour
  lh_color :: colour
  act_data :: "real list option"
  cmap_str :: string
  offset :: "real option"
  fig_size :: "int \<times> int"
  azimuth :: int
  elevation :: int

definition plot_brain_mesh ::
  "brain_env \<Rightarrow> brain_args \<Rightarrow> scene \<Rightarrow> (error + (nat \<times> nat option \<times> nat option)) \<times> scene" where
  "plot_brain_mesh env a s =
     (let (fig, s) = ipv_figure (fst (fig_size a)) (snd (fig_size a)) s
      in case brain_act_colors env (lh_vertices a) (act_data a) (cmap_str a) of
           Inl e \<Rightarrow> (Inl e, s)
         | Inr (lh_act_colors, rh_act_colors) \<Rightarrow>
             (case brain_hemi env ''rh'' (rh_vertices a) (rh_faces a) (rh_color a) (offset a)
                     rh_act_colors s of
                (Inl e, s) \<Rightarrow> (Inl e, s)
              | (Inr rh_mesh, s) \<Rightarrow>
                  (case brain_hemi env ''lh'' (lh_vertices a) (lh_faces a) (lh_color a) (offset a)
                          lh_act_colors s of
                     (Inl e, s) \<Rightarrow> (Inl e, s)
                   | (Inr lh_mesh, s) \<Rightarrow>
                       (let s = style_view ''black'' (azimuth a) (elevation a) s;
                            s = ipv_show s
                        in (Inr (fig, rh_mesh, lh_mesh), s)))))"

section \<open>\<^verbatim>\<open>plot_source_estimates\<close>: arguments and surroundings\<close>

text \<open>
  A colormap object as \<^verbatim>\<open>_calculate_cmap\<close> returns it: its number of entries
  \<^verbatim>\<open>cmap.N\<close> and its evaluation \<^verbatim>\<open>cmap(x)\<close> at one scalar.
\<close>

record colormap =
  cm_N :: nat
  cm_call :: "npfloat \<Rightarrow> rgba"

text \<open>
  The time label after \<^verbatim>\<open>_handle_time\<close>: a format string, a callable, or \<^verbatim>\<open>None\<close>.
\<close>

datatype time_label = TLStr string | TLCallable "real \<Rightarrow> string" | TLNone

text \<open>
  The argument \<^verbatim>\<open>views\<close> is a list or a tuple, or a single value that line 361 wraps
  into a tuple. A value that is not a string is never a key of \<^verbatim>\<open>views_dict\<close> and
  behaves like a string that is not a key.
\<close>

datatype views_arg = ViewOne string | ViewSeq "string list"

text \<open>
  The arguments that the modelled control flow reads. \<open>a_colormap\<close> and \<open>a_cortex\<close> are
  \<open>None\<close> for a value that is not a string; \<open>a_size\<close> is \<open>Inl n\<close> for an int and a pair
  otherwise.
\<close>

record pse_args =
  a_stc_is_SourceEstimate :: bool
  a_hemi :: string
  a_colormap :: "string option"
  a_alpha :: real
  a_time_viewer :: bool
  a_figure_is_None :: bool
  a_views :: views_arg
  a_colorbar :: bool
  a_cortex :: "string option"
  a_size :: "int + int \<times> int"
  a_background :: string
  a_foreground :: "string option"
  a_initial_time :: "real option"
  a_time_unit :: string

text \<open>
  What \<^verbatim>\<open>plot_source_estimates\<close> takes from other modules and libraries, as the values
  they return for the call at hand: \<^verbatim>\<open>get_subjects_dir\<close> and \<^verbatim>\<open>_check_subject\<close> (which
  may raise), \<^verbatim>\<open>stc.times\<close>, \<^verbatim>\<open>_handle_time\<close>, \<^verbatim>\<open>read_brain_mesh\<close> for each
  hemisphere, the morphed data \<^verbatim>\<open>morph_mat.dot(stc.data[:, t])\<close> for each time index
  \<open>t\<close>, \<^verbatim>\<open>_limits_to_control_points\<close>, \<^verbatim>\<open>_calculate_cmap\<close>, \<^verbatim>\<open>read_morph\<close>,
  \<^verbatim>\<open>offset_hemi\<close> with its default offset, and Python's \<^verbatim>\<open>round(x, 2)\<close>,
  \<^verbatim>\<open>%\<close> formatting of a number and \<^verbatim>\<open>str.capitalize\<close>.
\<close>

record pse_env =
  get_subjects_dir :: "error + string"
  check_subject :: "error + string"
  stc_times :: "real list"
  handle_time :: "time_label \<times> real list"
  read_brain_mesh :: "string \<Rightarrow> vertex list option \<times> face list option"
  morphed :: "real list list"
  limits :: "pts \<times> lim_cmap \<times> pts"
  calculate_cmap :: "lim_cmap \<Rightarrow> real \<Rightarrow> pts \<Rightarrow> pts \<Rightarrow> colormap"
  read_morph :: "string \<Rightarrow> colour"
  offset_hemi0 :: "vertex list \<Rightarrow> string \<Rightarrow> vertex list"
  round2 :: "real \<Rightarrow> real"
  py_format :: "string \<Rightarrow> real \<Rightarrow> string"
  capitalize :: "string \<Rightarrow> string"

text \<open>Lines 351 to 358; a view is stored as (elevation, azimuth).\<close>

definition views_dict :: "string \<rightharpoonup> int \<times> int" where
  "views_dict = map_of
     [(''lat'', (5, 0)), (''med'', (5, 180)), (''fos'', (5, 90)), (''cau'', (5, - 90)),
      (''dor'', (90, 0)), (''ven'', (- 90, 0)), (''fro'', (5, 110)), (''par'', (5, - 110))]"

definition normalise_views :: "views_arg \<Rightarrow> string list" where
  \<comment> \<open>lines 360 and 361\<close>
  "normalise_views v = (case v of ViewOne x \<Rightarrow> [x] | ViewSeq xs \<Rightarrow> xs)"

fun check_views :: "string list \<Rightarrow> error + unit" where
  \<comment> \<open>lines 363 to 367\<close>
  "check_views [] = Inr ()"
| "check_views (view # views) =
     (if views_dict view = None then Inl ValueError else check_views views)"

text \<open>
  Lines 348 to 388: the checks in their order. The result holds \<^verbatim>\<open>views\<close>,
  \<^verbatim>\<open>subjects_dir\<close>, \<^verbatim>\<open>subject\<close> and \<^verbatim>\<open>foreground\<close>.
\<close>

definition pse_validate ::
  "pse_env \<Rightarrow> pse_args \<Rightarrow> error + (string list \<times> string \<times> string \<times> string)" where
  "pse_validate env a =
     (if \<not> a_stc_is_SourceEstimate a then Inl ValueError
      else
        let views = normalise_views (a_views a) in
        case check_views views of
          Inl e \<Rightarrow> Inl e
        | Inr u \<Rightarrow>
           (case get_subjects_dir env of
              Inl e \<Rightarrow> Inl e
            | Inr subjects_dir \<Rightarrow>
               (case check_subject env of
                  Inl e \<Rightarrow> Inl e
                | Inr subject \<Rightarrow>
                    if a_colormap a = None then Inl NotImplementedError
                    else if a_cortex a \<noteq> Some ''classic'' then Inl NotImplementedError
                    else if \<not> a_figure_is_None a then Inl NotImplementedError
                    else
                      let foreground = (case a_foreground a of None \<Rightarrow> ''black'' | Some f \<Rightarrow> f) in
                      if a_hemi a \<notin> set [''lh'', ''rh'', ''split'', ''both''] then Inl ValueError
                      else Inr (views, subjects_dir, subject, foreground))))"

text \<open>
  \<^verbatim>\<open>np.argmin\<close>: the index of the first least entry; \<^verbatim>\<open>ValueError\<close> on an empty
  array.
\<close>

definition np_argmin :: "real list \<Rightarrow> error + nat" where
  "np_argmin xs =
     (case xs of
        [] \<Rightarrow> Inl ValueError
      | x # r \<Rightarrow> Inr (length (takeWhile (\<lambda>y. y \<noteq> fold min r x) xs)))"

definition initial_time_idx :: "pse_env \<Rightarrow> pse_args \<Rightarrow> error + nat" where
  \<comment> \<open>lines 390 to 395\<close>
  "initial_time_idx env a =
     (let scaler = (if a_time_unit a = ''ms'' then 1000 else 1) in
      case a_initial_time a of
        None \<Rightarrow> Inr 0
      | Some t0 \<Rightarrow> np_argmin (map (\<lambda>t. \<bar>t - t0 / scaler\<bar>) (stc_times env)))"

text \<open>
  \<^verbatim>\<open>morph_mat.dot(stc.data[:, t])\<close>: the column \<open>t\<close> must exist.
\<close>

definition stc_data_at :: "pse_env \<Rightarrow> nat \<Rightarrow> error + real list" where
  "stc_data_at env t = (if t < length (morphed env) then Inr (morphed env ! t) else Inl IndexError)"

text \<open>
  Lines 436 to 439: the coefficients of the mapping of the data. The scale points are
  numpy floats, so that equal end points give coefficients that are not finite.
\<close>

definition norm_coeffs :: "pts \<Rightarrow> npfloat \<times> npfloat" where
  "norm_coeffs scale_pts =
     (let dt_max = pt_last scale_pts;
          dt_min = pt0 scale_pts;
          k = np_div 1 (dt_max - dt_min);
          b = fsub (Fin 1) (fmul k (Fin dt_max))
      in (k, b))"

text \<open>
  Lines 462 to 465, 548 to 551 and 654 to 657: the part of the morphed data of one
  hemisphere.
\<close>

definition hemi_data :: "nat \<Rightarrow> string \<Rightarrow> real list \<Rightarrow> real list" where
  "hemi_data n_lh h stc_data = (if h = ''lh'' then take n_lh stc_data else drop n_lh stc_data)"

text \<open>
  Lines 468 and 469, 553 and 554, 659 and 660: the array that is handed to the colormap.
  The clipped copy that \<^verbatim>\<open>np.clip\<close> returns is bound to nothing.
\<close>

definition normalised :: "npfloat \<Rightarrow> npfloat \<Rightarrow> real list \<Rightarrow> npfloat list" where
  "normalised k b data =
     (let data = map (affine k b) data;
          clipped = np_clip_float data 0 1
      in data)"

definition act_colors_of :: "colormap \<Rightarrow> npfloat \<Rightarrow> npfloat \<Rightarrow> real list \<Rightarrow> colour" where
  \<comment> \<open>lines 471, 555 and 661: \<^verbatim>\<open>cmap(data)\<close>\<close>
  "act_colors_of cmap k b data = ColArr (map (cm_call cmap) (normalised k b data))"

text \<open>
  Lines 390 to 448: everything that is computed between the checks and the loop over
  the views. \<^verbatim>\<open>len(hemi_vertices[h])\<close> raises \<^verbatim>\<open>TypeError\<close> when the vertices are
  \<^verbatim>\<open>None\<close>.
\<close>

record pse_prep =
  p_time_idx :: nat
  p_time_label :: time_label
  p_times :: "real list"
  p_hemi_vertices :: "string \<Rightarrow> vertex list option"
  p_hemi_faces :: "string \<Rightarrow> face list option"
  p_n_lh :: nat
  p_stc_data :: "real list"
  p_fig_w :: int
  p_fig_h :: int
  p_ctrl_pts :: pts
  p_lim_cmap :: lim_cmap
  p_scale_pts :: pts
  p_cmap :: colormap
  p_dt_max :: real
  p_dt_min :: real
  p_k :: npfloat
  p_b :: npfloat
  p_hemis :: "string list"
  p_title :: string

definition pse_prepare :: "pse_env \<Rightarrow> pse_args \<Rightarrow> string \<Rightarrow> error + pse_prep" where
  "pse_prepare env a subject =
     (case initial_time_idx env a of
        Inl e \<Rightarrow> Inl e
      | Inr time_idx \<Rightarrow>
         (let (time_label, time_values) = handle_time env;
              hemi_vertices = (\<lambda>h. fst (read_brain_mesh env h));
              hemi_faces = (\<lambda>h. snd (read_brain_mesh env h))
          in case (hemi_vertices ''lh'', hemi_vertices ''rh'') of
               (Some lh, Some rh) \<Rightarrow>
                 (case stc_data_at env time_idx of
                    Inl e \<Rightarrow> Inl e
                  | Inr stc_data \<Rightarrow>
                     (let (fig_w, fig_h) = (case a_size a of Inl n \<Rightarrow> (n, n) | Inr wh \<Rightarrow> wh);
                          (ctrl_pts, lim_cmap, scale_pts) = limits env;
                          cmap = calculate_cmap env lim_cmap (a_alpha a) ctrl_pts scale_pts;
                          dt_max = pt_last scale_pts;
                          dt_min = pt0 scale_pts;
                          (k, b) = norm_coeffs scale_pts;
                          hemis = (if a_hemi a \<in> set [''both'', ''split''] then [''lh'', ''rh'']
                                   else [a_hemi a]);
                          title = (if length hemis > 1 then subject
                                   else subject @ '' - '' @ hd hemis);
                          title = capitalize env title
                      in Inr \<lparr>p_time_idx = time_idx, p_time_label = time_label, p_times = time_values,
                              p_hemi_vertices = hemi_vertices, p_hemi_faces = hemi_faces,
                              p_n_lh = length lh, p_stc_data = stc_data,
                              p_fig_w = fig_w, p_fig_h = fig_h,
                              p_ctrl_pts = ctrl_pts, p_lim_cmap = lim_cmap, p_scale_pts = scale_pts,
                              p_cmap = cmap, p_dt_max = dt_max, p_dt_min = dt_min,
                              p_k = k, p_b = b, p_hemis = hemis, p_title = title\<rparr>))
             | _ \<Rightarrow> Inl TypeError))"

section \<open>\<^verbatim>\<open>plot_source_estimates\<close>: the figures\<close>

text \<open>
  An entry of the list \<^verbatim>\<open>figs\<close>: a figure, or for \<^verbatim>\<open>hemi='split'\<close> the row of the
  figures of one view.
\<close>

datatype fig_entry = OneFig nat | FigRow "nat list"

text \<open>
  The variables of the loop over the views: the scene, the local variables \<^verbatim>\<open>fig\<close>
  (unbound at first) and \<^verbatim>\<open>figs_row\<close>, the dictionary \<^verbatim>\<open>hemi_meshes\<close> and the list
  \<^verbatim>\<open>figs\<close>. A function that can raise after it has changed the scene returns the
  error together with the scene at that moment.
\<close>

record loop_state =
  ls_scene :: scene
  ls_fig :: "nat option"
  ls_figs_row :: "nat list option"
  ls_hemi_meshes :: "string \<rightharpoonup> nat option"
  ls_figs :: "fig_entry list"

definition set_animation :: "nat \<Rightarrow> int \<Rightarrow> scene \<Rightarrow> scene" where
  \<comment> \<open>\<^verbatim>\<open>fig.animation = n\<close>\<close>
  "set_animation fig n s = s\<lparr>figures := (figures s)[fig := (figures s ! fig)\<lparr>fig_animation := n\<rparr>]\<rparr>"

definition new_figure :: "pse_prep \<Rightarrow> scene \<Rightarrow> nat \<times> scene" where
  \<comment> \<open>lines 458 and 459, 485 to 488\<close>
  "new_figure p s =
     (let (fig, s) = ipv_figure (p_fig_w p) (p_fig_h p) s in (fig, set_animation fig 0 s))"

definition mesh_key :: "string \<Rightarrow> string \<Rightarrow> string" where
  \<comment> \<open>\<^verbatim>\<open>h + '_' + view\<close>\<close>
  "mesh_key h view = h @ ''_'' @ view"

definition hemi_step ::
  "pse_env \<Rightarrow> pse_args \<Rightarrow> pse_prep \<Rightarrow> string \<Rightarrow> string \<Rightarrow> loop_state \<Rightarrow>
   error \<times> scene + loop_state" where
  \<comment> \<open>lines 462 to 506, the body of the loop over the hemispheres\<close>
  "hemi_step env a p view h ls =
     (let data = hemi_data (p_n_lh p) h (p_stc_data p) in
      if length data > 0 then
        let act_colors = act_colors_of (p_cmap p) (p_k p) (p_b p) data;
            brain_vertices = p_hemi_vertices p h;
            brain_faces = p_hemi_faces p h;
            brain_color = read_morph env h
        in case (brain_vertices, brain_faces) of
             (Some vs, Some fs) \<Rightarrow>
               (let vs = offset_hemi0 env vs h;
                    ls = (if a_hemi a = ''split'' then
                            let (fig, s) = new_figure p (ls_scene ls)
                            in ls\<lparr>ls_scene := s, ls_fig := Some fig,
                                  ls_figs_row := Some (case ls_figs_row ls of
                                                         None \<Rightarrow> [fig]
                                                       | Some row \<Rightarrow> row @ [fig])\<rparr>
                          else ls);
                    ((mesh_widget, hemi_mesh), s) =
                       plot_hemisphere_mesh vs fs brain_color (Some act_colors) (ls_scene ls)
                in case views_dict view of
                     None \<Rightarrow> Inl (KeyError, style_off (a_background a) s)
                   | Some (elev, azim) \<Rightarrow>
                       Inr (ls\<lparr>ls_scene := style_view (a_background a) azim elev s,
                               ls_hemi_meshes := (ls_hemi_meshes ls)(mesh_key h view \<mapsto> hemi_mesh)\<rparr>))
           | _ \<Rightarrow> Inr ls
      else Inr ls)"

fun hemis_loop ::
  "pse_env \<Rightarrow> pse_args \<Rightarrow> pse_prep \<Rightarrow> string \<Rightarrow> string list \<Rightarrow> loop_state \<Rightarrow>
   error \<times> scene + loop_state" where
  "hemis_loop env a p view [] ls = Inr ls"
| "hemis_loop env a p view (h # hs) ls =
     (case hemi_step env a p view h ls of
        Inl e \<Rightarrow> Inl e
      | Inr ls \<Rightarrow> hemis_loop env a p view hs ls)"

definition view_step ::
  "pse_env \<Rightarrow> pse_args \<Rightarrow> pse_prep \<Rightarrow> string \<Rightarrow> loop_state \<Rightarrow> error \<times> scene + loop_state" where
  \<comment> \<open>lines 454 to 510, the body of the loop over the views\<close>
  "view_step env a p view ls =
     (let ls = ls\<lparr>ls_figs_row := None\<rparr>;
          ls = (if a_hemi a \<noteq> ''split'' then
                  let (fig, s) = new_figure p (ls_scene ls)
                  in ls\<lparr>ls_scene := s, ls_fig := Some fig\<rparr>
                else ls)
      in case hemis_loop env a p view (p_hemis p) ls of
           Inl e \<Rightarrow> Inl e
         | Inr ls \<Rightarrow>
             (case ls_figs_row ls of
                Some figs_row \<Rightarrow> Inr (ls\<lparr>ls_figs := ls_figs ls @ [FigRow figs_row]\<rparr>)
              | None \<Rightarrow>
                  (case ls_fig ls of
                     None \<Rightarrow> Inl (NameError, ls_scene ls)
                   | Some fig \<Rightarrow> Inr (ls\<lparr>ls_figs := ls_figs ls @ [OneFig fig]\<rparr>))))"

fun views_loop ::
  "pse_env \<Rightarrow> pse_args \<Rightarrow> pse_prep \<Rightarrow> string list \<Rightarrow> loop_state \<Rightarrow> error \<times> scene + loop_state" where
  "views_loop env a p [] ls = Inr ls"
| "views_loop env a p (view # views) ls =
     (case view_step env a p view ls of
        Inl e \<Rightarrow> Inl e
      | Inr ls \<Rightarrow> views_loop env a p views ls)"

text \<open>
  Lines 512 to 521: the children of the current container. A child that is not a widget
  and an \<^verbatim>\<open>HBox\<close> whose children are not a sequence are refused by the widget toolkit.
\<close>

definition set_children :: "widget list \<Rightarrow> scene \<Rightarrow> scene" where
  \<comment> \<open>\<^verbatim>\<open>ipv.gcc().children = ws\<close>\<close>
  "set_children ws s = (let (fig, s) = gcf s in s\<lparr>container := ws\<rparr>)"

definition add_children :: "widget list \<Rightarrow> scene \<Rightarrow> scene" where
  \<comment> \<open>\<^verbatim>\<open>ipv.gcc().children += ws\<close>\<close>
  "add_children ws s = (let (fig, s) = gcf s in s\<lparr>container := container s @ ws\<rparr>)"

fun hboxes :: "fig_entry list \<Rightarrow> error + widget list" where
  "hboxes [] = Inr []"
| "hboxes (FigRow figs_row # figs) =
     (case hboxes figs of Inl e \<Rightarrow> Inl e | Inr ws \<Rightarrow> Inr (HBox (map FigureW figs_row) # ws))"
| "hboxes (OneFig fig # figs) = Inl TraitError"

fun fig_widgets :: "fig_entry list \<Rightarrow> error + widget list" where
  "fig_widgets [] = Inr []"
| "fig_widgets (OneFig fig # figs) =
     (case fig_widgets figs of Inl e \<Rightarrow> Inl e | Inr ws \<Rightarrow> Inr (FigureW fig # ws))"
| "fig_widgets (FigRow figs_row # figs) = Inl TraitError"

definition pse_children ::
  "pse_args \<Rightarrow> string \<Rightarrow> string \<Rightarrow> fig_entry list \<Rightarrow> scene \<Rightarrow> error \<times> scene + scene" where
  "pse_children a foreground title figs s =
     (let title_w = HTML foreground title in
      case (if a_hemi a = ''split'' then hboxes figs else fig_widgets figs) of
        Inl e \<Rightarrow> Inl (e, s)
      | Inr ws \<Rightarrow> Inr (set_children (title_w # ws) s))"

section \<open>\<^verbatim>\<open>plot_source_estimates\<close>: the time viewer and the colorbar\<close>

text \<open>
  The variables that the handlers share with \<^verbatim>\<open>plot_source_estimates\<close>: the three
  \<^verbatim>\<open>nonlocal\<close> variables \<^verbatim>\<open>cmap\<close>, \<^verbatim>\<open>k\<close> and \<^verbatim>\<open>b\<close>, the values of the label and of the
  slider, and what the handlers only read.
\<close>

record viewer =
  v_cmap :: colormap
  v_k :: npfloat
  v_b :: npfloat
  v_label :: string
  v_slider :: nat
  v_views :: "string list"
  v_hemis :: "string list"
  v_n_lh :: nat
  v_hemi_meshes :: "string \<rightharpoonup> nat option"
  v_time_label :: time_label
  v_times :: "real list"
  v_lim_cmap :: lim_cmap
  v_alpha :: real

text \<open>
  The heat map of the colorbar and the values of the three inputs. The colours of the
  colour scale are kept as the three integers that line 582 prints in hexadecimal. An
  input holds the value it was given; the toolkit's clamping of a value to the bounds
  \<open>cb_min\<close> and \<open>cb_max\<close> is not modelled.
\<close>

record heat =
  heat_x :: "real list"
  heat_color :: "real list \<times> real list"
  heat_colors :: "(int \<times> int \<times> int) list"

record cbar =
  cb_data :: "real list"
  cb_ticks :: "real list"
  cb_marks :: "heat list"
  cb_fmin :: real
  cb_fmid :: real
  cb_fmax :: real
  cb_min :: real
  cb_max :: real

definition np_linspace :: "real \<Rightarrow> real \<Rightarrow> nat \<Rightarrow> real list" where
  "np_linspace start stop n =
     (if n = 1 then [start]
      else map (\<lambda>i. start + real i * ((stop - start) / real (n - 1))) [0..<n])"

definition astype_int :: "real \<Rightarrow> int" where
  \<comment> \<open>\<^verbatim>\<open>astype(int)\<close> cuts the fraction off\<close>
  "astype_int x = (if x \<ge> 0 then \<lfloor>x\<rfloor> else \<lceil>x\<rceil>)"

definition cbar_colors :: "colormap \<Rightarrow> real list \<Rightarrow> (int \<times> int \<times> int) list" where
  \<comment> \<open>lines 573 to 581 and 664 to 671, with the background grey 0.5\<close>
  "cbar_colors cmap cbar_data =
     map (\<lambda>x. case cm_call cmap (Fin x) of
                 (r, g, bl, al) \<Rightarrow>
                   (astype_int (255 * (al * r + (1 - al) * (1 / 2))),
                    astype_int (255 * (al * g + (1 - al) * (1 / 2))),
                    astype_int (255 * (al * bl + (1 - al) * (1 / 2))))) cbar_data"

definition make_heat :: "colormap \<Rightarrow> real list \<Rightarrow> real list \<Rightarrow> heat" where
  "make_heat cmap cbar_data cbar_ticks =
     \<lparr>heat_x = cbar_ticks, heat_color = (cbar_data, cbar_data),
      heat_colors = cbar_colors cmap cbar_data\<rparr>"

definition make_label :: "pse_env \<Rightarrow> time_label \<Rightarrow> real list \<Rightarrow> nat \<Rightarrow> error + string option" where
  \<comment> \<open>lines 532 to 535 and 559 to 562: the text of the label, when a branch is taken\<close>
  "make_label env time_label time_values time_idx =
     (case time_label of
        TLNone \<Rightarrow> Inr None
      | TLStr fmt \<Rightarrow>
          if time_idx < length time_values then Inr (Some (py_format env fmt (time_values ! time_idx)))
          else Inl IndexError
      | TLCallable f \<Rightarrow>
          if time_idx < length time_values then Inr (Some (f (time_values ! time_idx)))
          else Inl IndexError)"

definition animation_control :: "nat \<Rightarrow> int \<Rightarrow> scene \<Rightarrow> widget list \<times> scene" where
  \<comment> \<open>\<^verbatim>\<open>ipv.animation_control(meshes, sequence_length, add=False, interval)\<close>: the play
      button and the slider; the interval is written to the current figure\<close>
  "animation_control sequence_length interval s =
     ([Play sequence_length interval, Slider sequence_length],
      update_current (\<lambda>f. f\<lparr>fig_animation := interval\<rparr>) s)"

definition make_cbar :: "pse_env \<Rightarrow> pse_prep \<Rightarrow> cbar" where
  \<comment> \<open>lines 569 to 620\<close>
  "make_cbar env p =
     (let cbar_data = np_linspace 0 1 (cm_N (p_cmap p));
          cbar_ticks = np_linspace (p_dt_min p) (p_dt_max p) (cm_N (p_cmap p))
      in \<lparr>cb_data = cbar_data, cb_ticks = cbar_ticks,
           cb_marks = [make_heat (p_cmap p) cbar_data cbar_ticks],
           cb_fmin = round2 env (pt0 (p_ctrl_pts p)),
           cb_fmid = round2 env (pt1 (p_ctrl_pts p)),
           cb_fmax = round2 env (pt_last (p_ctrl_pts p)),
           cb_min = p_dt_min p, cb_max = p_dt_max p\<rparr>)"

text \<open>
  Lines 523 to 691. Without \<^verbatim>\<open>time_viewer\<close> nothing is added to the scene, whatever
  \<^verbatim>\<open>colorbar\<close> is. With it, the label must have been bound by one of the two branches
  of lines 532 to 535 before line 565 reads it.
\<close>

definition pse_controls ::
  "pse_env \<Rightarrow> pse_args \<Rightarrow> pse_prep \<Rightarrow> string list \<Rightarrow> (string \<rightharpoonup> nat option) \<Rightarrow> scene \<Rightarrow>
   error \<times> scene + scene \<times> viewer option \<times> cbar option" where
  "pse_controls env a p views hemi_meshes s =
     (if a_time_viewer a then
        let (control, s) = animation_control (length (stc_times env)) 500 s
        in case make_label env (p_time_label p) (p_times p) (p_time_idx p) of
             Inl e \<Rightarrow> Inl (e, s)
           | Inr None \<Rightarrow> Inl (NameError, s)
           | Inr (Some text) \<Rightarrow>
               (let v = \<lparr>v_cmap = p_cmap p, v_k = p_k p, v_b = p_b p, v_label = text,
                         v_slider = p_time_idx p, v_views = views, v_hemis = p_hemis p,
                         v_n_lh = p_n_lh p, v_hemi_meshes = hemi_meshes,
                         v_time_label = p_time_label p, v_times = p_times p,
                         v_lim_cmap = p_lim_cmap p, v_alpha = a_alpha a\<rparr>;
                    control = HBox (control @ [Label])
                in if a_colorbar a then
                     let cb = make_cbar env p;
                         info_widget = VBox [control, CbarFigure, BoundedFloatText ''Fmin:'',
                                             BoundedFloatText ''Fmid:'', BoundedFloatText ''Fmax:'',
                                             Button ''Update mesh'']
                     in Inr (add_children [info_widget] s, Some v, Some cb)
                   else Inr (add_children [control] s, Some v, None))
      else Inr (s, None, None))"

text \<open>
  The whole function. The result is the returned list \<^verbatim>\<open>figs\<close> or the exception, the
  scene, and the state of the time viewer and of the colorbar when they were created.
\<close>

definition plot_source_estimates ::
  "pse_env \<Rightarrow> pse_args \<Rightarrow> scene \<Rightarrow>
   (error + fig_entry list) \<times> scene \<times> viewer option \<times> cbar option" where
  "plot_source_estimates env a s =
     (case pse_validate env a of
        Inl e \<Rightarrow> (Inl e, s, None, None)
      | Inr (views, subjects_dir, subject, foreground) \<Rightarrow>
         (case pse_prepare env a subject of
            Inl e \<Rightarrow> (Inl e, s, None, None)
          | Inr p \<Rightarrow>
             (case views_loop env a p views
                     \<lparr>ls_scene = s, ls_fig = None, ls_figs_row = None,
                      ls_hemi_meshes = Map.empty, ls_figs = []\<rparr> of
                Inl (e, s) \<Rightarrow> (Inl e, s, None, None)
              | Inr ls \<Rightarrow>
                 (case pse_children a foreground (p_title p) (ls_figs ls) (ls_scene ls) of
                    Inl (e, s) \<Rightarrow> (Inl e, s, None, None)
                  | Inr s \<Rightarrow>
                     (case pse_controls env a p views (ls_hemi_meshes ls) s of
                        Inl (e, s) \<Rightarrow> (Inl e, s, None, None)
                      | Inr (s, v, cb) \<Rightarrow> (Inr (ls_figs ls), ipv_show s, v, cb))))))"

section \<open>The handlers \<^verbatim>\<open>slider_handler\<close> and \<^verbatim>\<open>on_update\<close>\<close>

text \<open>
  Lines 546 to 556 and 652 to 662: the two nested loops that assign the new colours. An
  exception leaves the colours that were assigned before it.
\<close>

fun recolor_hemis :: "viewer \<Rightarrow> real list \<Rightarrow> string \<Rightarrow> string list \<Rightarrow> scene \<Rightarrow> error option \<times> scene" where
  "recolor_hemis v stc_data view [] s = (None, s)"
| "recolor_hemis v stc_data view (h # hs) s =
     (let data = hemi_data (v_n_lh v) h stc_data;
          act_color_new = act_colors_of (v_cmap v) (v_k v) (v_b v) data
      in case v_hemi_meshes v (mesh_key h view) of
           None \<Rightarrow> (Some KeyError, s)
         | Some None \<Rightarrow> (Some AttributeError, s)
         | Some (Some m) \<Rightarrow> recolor_hemis v stc_data view hs (set_mesh_color m act_color_new s))"

fun recolor_views :: "viewer \<Rightarrow> real list \<Rightarrow> string list \<Rightarrow> scene \<Rightarrow> error option \<times> scene" where
  "recolor_views v stc_data [] s = (None, s)"
| "recolor_views v stc_data (view # views) s =
     (case recolor_hemis v stc_data view (v_hemis v) s of
        (Some e, s) \<Rightarrow> (Some e, s)
      | (None, s) \<Rightarrow> recolor_views v stc_data views s)"

text \<open>
  Lines 538 to 562. \<open>change_new\<close> is \<^verbatim>\<open>int(change.new)\<close>, the new value of the slider;
  the toolkit has stored it in the slider (\<open>v_slider\<close>) when it calls the handler.
\<close>

definition slider_handler :: "pse_env \<Rightarrow> nat \<Rightarrow> viewer \<Rightarrow> scene \<Rightarrow> error option \<times> viewer \<times> scene" where
  "slider_handler env change_new v s =
     (let time_idx_new = change_new in
      case stc_data_at env time_idx_new of
        Inl e \<Rightarrow> (Some e, v, s)
      | Inr stc_data \<Rightarrow>
         (case recolor_views v stc_data (v_views v) s of
            (Some e, s) \<Rightarrow> (Some e, v, s)
          | (None, s) \<Rightarrow>
             (case make_label env (v_time_label v) (v_times v) time_idx_new of
                Inl e \<Rightarrow> (Some e, v, s)
              | Inr None \<Rightarrow> (None, v, s)
              | Inr (Some text) \<Rightarrow> (None, v\<lparr>v_label := text\<rparr>, s))))"

text \<open>
  Lines 622 to 678. The values of the three inputs are Python floats, so that line 649
  raises \<^verbatim>\<open>ZeroDivisionError\<close> when \<^verbatim>\<open>dt_max\<close> equals \<^verbatim>\<open>dt_min\<close>; by then line 648
  has assigned the new colormap.
\<close>

definition on_update :: "pse_env \<Rightarrow> viewer \<Rightarrow> cbar \<Rightarrow> scene \<Rightarrow> error option \<times> viewer \<times> cbar \<times> scene" where
  "on_update env v cb s =
     (let ctrl_pts = (cb_fmin cb, cb_fmid cb, cb_fmax cb);
          time_idx_new = v_slider v
      in case stc_data_at env time_idx_new of
           Inl e \<Rightarrow> (Some e, v, cb, s)
         | Inr stc_data \<Rightarrow>
            if \<not> (pt0 ctrl_pts < pt1 ctrl_pts \<and> pt1 ctrl_pts < pt_last ctrl_pts)
            then (Some ValueError, v, cb, s)
            else
              let (scale_pts, dt_min, dt_max) =
                    (case v_lim_cmap v of
                       CmapStr name \<Rightarrow> (ctrl_pts, cb_fmin cb, cb_fmax cb)
                     | CmapObj tab \<Rightarrow>
                         ((- pt_last ctrl_pts, 0, pt_last ctrl_pts), - cb_fmax cb, cb_fmax cb));
                  v = v\<lparr>v_cmap := calculate_cmap env (v_lim_cmap v) (v_alpha v) ctrl_pts scale_pts\<rparr>
              in case py_div 1 (dt_max - dt_min) of
                   Inl e \<Rightarrow> (Some e, v, cb, s)
                 | Inr k \<Rightarrow>
                    (let b = 1 - k * dt_max;
                         v = v\<lparr>v_k := Fin k, v_b := Fin b\<rparr>
                     in case recolor_views v stc_data (v_views v) s of
                          (Some e, s) \<Rightarrow> (Some e, v, cb, s)
                        | (None, s) \<Rightarrow>
                            (None, v,
                             cb\<lparr>cb_marks := [make_heat (v_cmap v) (cb_data cb) (cb_ticks cb)]\<rparr>,
                             s)))"

text \<open>
  The state in which the handlers run: every hemisphere of every view has its overlay
  mesh in the scene, and the meshes of two hemispheres are two objects.
\<close>

definition meshes_ok :: "viewer \<Rightarrow> scene \<Rightarrow> bool" where
  "meshes_ok v s \<longleftrightarrow>
     (\<forall>view \<in> set (v_views v). \<forall>h \<in> set (v_hemis v).
        \<exists>m < length (meshes s). v_hemi_meshes v (mesh_key h view) = Some (Some m)) \<and>
     (\<forall>view \<in> set (v_views v). \<forall>view' \<in> set (v_views v).
        \<forall>h \<in> set (v_hemis v). \<forall>h' \<in> set (v_hemis v).
          v_hemi_meshes v (mesh_key h view) = v_hemi_meshes v (mesh_key h' view') \<longrightarrow> h = h')"

text \<open>
  For the proofs: the colour that the loops assign to the mesh of a hemisphere, the mesh
  that the dictionary holds for a key, and the assignments of the two loops in their
  order.
\<close>

definition hemi_colour :: "viewer \<Rightarrow> real list \<Rightarrow> string \<Rightarrow> colour" where
  "hemi_colour v stc_data h =
     act_colors_of (v_cmap v) (v_k v) (v_b v) (hemi_data (v_n_lh v) h stc_data)"

definition mesh_of :: "viewer \<Rightarrow> string \<Rightarrow> string \<Rightarrow> nat" where
  "mesh_of v h view = (case v_hemi_meshes v (mesh_key h view) of Some (Some m) \<Rightarrow> m | _ \<Rightarrow> 0)"

definition hemi_writes :: "viewer \<Rightarrow> real list \<Rightarrow> string \<Rightarrow> (nat \<times> colour) list" where
  "hemi_writes v stc_data view = map (\<lambda>h. (mesh_of v h view, hemi_colour v stc_data h)) (v_hemis v)"

definition view_writes :: "viewer \<Rightarrow> real list \<Rightarrow> string list \<Rightarrow> (nat \<times> colour) list" where
  "view_writes v stc_data views = concat (map (hemi_writes v stc_data) views)"

definition apply_writes :: "(nat \<times> colour) list \<Rightarrow> scene \<Rightarrow> scene" where
  "apply_writes ws s = fold (\<lambda>(m, c). set_mesh_color m c) ws s"

text \<open>
  For the proofs about the set-up: a hemisphere is drawn when it has data and geometry;
  the dictionary \<^verbatim>\<open>hemi_meshes\<close> holds meshes of the scene, a different one for each
  key.
\<close>

definition drawn :: "pse_prep \<Rightarrow> string \<Rightarrow> bool" where
  "drawn p h \<longleftrightarrow>
     0 < length (hemi_data (p_n_lh p) h (p_stc_data p)) \<and>
     p_hemi_vertices p h \<noteq> None \<and> p_hemi_faces p h \<noteq> None"

definition hm_inv :: "(string \<rightharpoonup> nat option) \<Rightarrow> scene \<Rightarrow> bool" where
  "hm_inv hm s \<longleftrightarrow>
     (\<forall>k mo. hm k = Some mo \<longrightarrow> (\<exists>m < length (meshes s). mo = Some m)) \<and>
     inj_on hm (dom hm)"

text \<open>For the proofs: a step keeps the figures of the scene and their cameras.\<close>

definition views_kept :: "scene \<Rightarrow> scene \<Rightarrow> bool" where
  "views_kept s s' \<longleftrightarrow>
     length (figures s) \<le> length (figures s') \<and>
     (\<forall>j < length (figures s). fig_view (figures s' ! j) = fig_view (figures s ! j))"

section \<open>Concrete inputs\<close>

text \<open>
  Small inputs on which the theorems below are instantiated: the scene before any call,
  a colormap whose evaluation shows the scalar it was given, and surfaces of one
  vertex for each hemisphere.
\<close>

definition empty_scene :: scene where
  "empty_scene = \<lparr>meshes = [], figures = [], current = None, container = [], shown = False\<rparr>"

definition echo_call :: "npfloat \<Rightarrow> rgba" where
  "echo_call x = (case x of Fin y \<Rightarrow> (y, y, y, 1) | NonFin \<Rightarrow> (0, 0, 0, 0))"

definition ex_brain_env :: brain_env where
  "ex_brain_env =
     \<lparr>limits_to_control_points = (\<lambda>d cs. ((1, 2, 3), CmapStr ''hot'', (1, 2, 3))),
      cm_get_cmap = (\<lambda>name. replicate 4 (1, 0, 0, 1)),
      listed_call = (\<lambda>tab. echo_call),
      offset_hemi = (\<lambda>vs h off. vs)\<rparr>"

definition ex_brain_args :: brain_args where
  "ex_brain_args =
     \<lparr>rh_vertices = Some [(1, 0, 0)], lh_vertices = Some [(- 1, 0, 0)],
      rh_faces = Some [(0, 0, 0)], lh_faces = Some [(0, 0, 0)],
      rh_color = ColStr ''grey'', lh_color = ColStr ''grey'',
      act_data = Some [1, 3], cmap_str = ''auto'', offset = Some 0,
      fig_size = (500, 500), azimuth = 90, elevation = 90\<rparr>"

definition echo_cmap :: "pts \<Rightarrow> colormap" where
  "echo_cmap ctrl_pts =
     \<lparr>cm_N = 2,
      cm_call = (\<lambda>x. case x of Fin y \<Rightarrow> (y, y, pt0 ctrl_pts, 1) | NonFin \<Rightarrow> (0, 0, 0, 0))\<rparr>"

definition ex_env :: pse_env where
  "ex_env =
     \<lparr>get_subjects_dir = Inr ''subjects'', check_subject = Inr ''sample'',
      stc_times = [0, 1 / 10],
      handle_time = (TLStr ''t=%d'', [0, 100]),
      read_brain_mesh = (\<lambda>h. (Some [(0, 0, 0)], Some [(0, 0, 0)])),
      morphed = [[1, 3], [2, 5]],
      limits = ((1, 2, 3), CmapStr ''hot'', (1, 2, 3)),
      calculate_cmap = (\<lambda>lim_cmap al ctrl_pts scale_pts. echo_cmap ctrl_pts),
      read_morph = (\<lambda>h. ColStr ''grey''),
      offset_hemi0 = (\<lambda>vs h. vs),
      round2 = (\<lambda>x. x),
      py_format = (\<lambda>fmt t. if t = 0 then ''t=0'' else ''t=100''),
      capitalize = (\<lambda>s. if s = ''sample'' then ''Sample'' else s)\<rparr>"

definition ex_args :: pse_args where
  "ex_args =
     \<lparr>a_stc_is_SourceEstimate = True, a_hemi = ''both'', a_colormap = Some ''hot'',
      a_alpha = 1, a_time_viewer = True, a_figure_is_None = True,
      a_views = ViewOne ''lat'', a_colorbar = True, a_cortex = Some ''classic'',
      a_size = Inl 800, a_background = ''black'', a_foreground = None,
      a_initial_time = None, a_time_unit = ''s''\<rparr>"

text \<open>
  The state that \<^verbatim>\<open>plot_source_estimates\<close> builds from \<open>ex_env\<close> and \<open>ex_args\<close>
  (lemma \<open>plot_source_estimates_example\<close> at the end).
\<close>

definition ex_mesh :: "colour \<Rightarrow> bool \<Rightarrow> mesh" where
  "ex_mesh c blended =
     \<lparr>mesh_x = [0], mesh_y = [0], mesh_z = [0], mesh_triangles = [(0, 0, 0)],
      mesh_color = c, mesh_blended = blended\<rparr>"

definition ex_scene :: scene where
  "ex_scene =
     \<lparr>meshes = [ex_mesh (ColStr ''grey'') False, ex_mesh (ColArr [(0, 0, 1, 1)]) True,
                ex_mesh (ColStr ''grey'') False, ex_mesh (ColArr [(1, 1, 1, 1)]) True],
      figures = [\<lparr>fig_width = 800, fig_height = 800, fig_animation = 500,
                  fig_meshes = [0, 1, 2, 3], fig_box = False, fig_axes = False,
                  fig_background = Some ''black'', fig_view = Some (0, 5),
                  fig_squarelim = True\<rparr>],
      current = Some 0,
      container = [HTML ''black'' ''Sample'', FigureW 0,
                   VBox [HBox [Play 2 500, Slider 2, Label], CbarFigure,
                         BoundedFloatText ''Fmin:'', BoundedFloatText ''Fmid:'',
                         BoundedFloatText ''Fmax:'', Button ''Update mesh'']],
      shown = True\<rparr>"

definition ex_viewer :: viewer where
  "ex_viewer =
     \<lparr>v_cmap = echo_cmap (1, 2, 3), v_k = Fin (1 / 2), v_b = Fin (- (1 / 2)),
      v_label = ''t=0'', v_slider = 0, v_views = [''lat''], v_hemis = [''lh'', ''rh''],
      v_n_lh = 1,
      v_hemi_meshes = [mesh_key ''lh'' ''lat'' \<mapsto> Some 1, mesh_key ''rh'' ''lat'' \<mapsto> Some 3],
      v_time_label = TLStr ''t=%d'', v_times = [0, 100],
      v_lim_cmap = CmapStr ''hot'', v_alpha = 1\<rparr>"

definition ex_cbar :: cbar where
  "ex_cbar =
     \<lparr>cb_data = [0, 1], cb_ticks = [1, 3],
      cb_marks = [\<lparr>heat_x = [1, 3], heat_color = ([0, 1], [0, 1]),
                   heat_colors = [(0, 0, 255), (255, 255, 255)]\<rparr>],
      cb_fmin = 1, cb_fmid = 2, cb_fmax = 3, cb_min = 1, cb_max = 3\<rparr>"

section \<open>Properties of the alpha ramps\<close>

lemma fold_upt_update:
  "n \<le> length xs \<Longrightarrow>
   fold (\<lambda>i ys. ys[i := v i (ys ! i)]) [0..<n] xs =
   map (\<lambda>j. if j < n then v j (xs ! j) else xs ! j) [0..<length xs]"
proof (induction n)
  case 0
  then show ?case by (simp add: map_nth)
next
  case (Suc n)
  then have IH: "fold (\<lambda>i ys. ys[i := v i (ys ! i)]) [0..<n] xs =
      map (\<lambda>j. if j < n then v j (xs ! j) else xs ! j) [0..<length xs]"
    and n: "n < length xs" by simp_all
  show ?case
    by (rule nth_equalityI) (use n in \<open>auto simp: IH nth_list_update less_Suc_eq\<close>)
qed

lemma hot_alphas_eq:
  "hot_alphas c s N =
    map (\<lambda>i. let p = real i * (pt_last s / real N) in
     if p < pt0 c then 0 else if p < pt1 c then (1 / (pt1 c - pt0 c)) * p + (- pt0 c * (1 / (pt1 c - pt0 c))) else 1) [0..<N]"
proof -
  let ?step = "pt_last s / real N" and ?k = "1 / (pt1 c - pt0 c)"
  let ?v = "\<lambda>i old. (let p = real i * ?step in if p < pt0 c then 0 else if p < pt1 c then ?k * p + (- pt0 c * ?k) else old)"
  have "hot_alpha_step c ?step ?k (- pt0 c * ?k) = (\<lambda>i ys. ys[i := ?v i (ys ! i)])"
    by (intro ext) (auto simp: hot_alpha_step_def Let_def)
  then have "hot_alphas c s N = fold (\<lambda>i ys. ys[i := ?v i (ys ! i)]) [0..<N] (replicate N 1)"
    by (simp add: hot_alphas_def Let_def)
  also have "\<dots> = map (\<lambda>j. if j < N then ?v j (replicate N 1 ! j) else replicate N 1 ! j) [0..<length (replicate N (1::real))]"
    by (rule fold_upt_update) simp
  finally show ?thesis by (simp add: Let_def)
qed

lemma mne_alphas_eq:
  "mne_alphas c s N =
    map (\<lambda>i. let p = mne_pos s N i in
     if - pt0 c < p \<and> p < pt0 c then 0
     else if pt0 c \<le> p \<and> p < pt1 c then (1 / (pt1 c - pt0 c)) * p + (- pt0 c * (1 / (pt1 c - pt0 c)))
     else if p \<le> - pt0 c \<and> - pt1 c < p then (- (1 / (pt1 c - pt0 c))) * p + (- pt0 c * (1 / (pt1 c - pt0 c)))
     else 1) [0..<N]"
proof -
  let ?step = "(pt_last s - pt0 s) / real N" and ?k = "1 / (pt1 c - pt0 c)"
  let ?v = "\<lambda>i old. (let p = real i * ?step + pt0 s in 
     if - pt0 c < p \<and> p < pt0 c then 0
     else if pt0 c \<le> p \<and> p < pt1 c then ?k * p + (- pt0 c * ?k)
     else if p \<le> - pt0 c \<and> - pt1 c < p then (- ?k) * p + (- pt0 c * ?k)
     else old)"
  have "mne_alpha_step c s ?step ?k (- ?k) (- pt0 c * ?k) = (\<lambda>i ys. ys[i := ?v i (ys ! i)])"
    by (intro ext) (auto simp: mne_alpha_step_def Let_def)
  then have "mne_alphas c s N = fold (\<lambda>i ys. ys[i := ?v i (ys ! i)]) [0..<N] (replicate N 1)"
    by (simp add: mne_alphas_def Let_def)
  also have "\<dots> = map (\<lambda>j. if j < N then ?v j (replicate N 1 ! j) else replicate N 1 ! j) [0..<length (replicate N (1::real))]"
    by (rule fold_upt_update) simp
  finally show ?thesis by (simp add: Let_def mne_pos_def)
qed

lemma alpha_of_with_alpha: "alpha_of (with_alpha c a) = a"
  by (cases c) simp

lemma ramp_eq: "1 / (c1 - c0) * p + - c0 * (1 / (c1 - c0)) = (p - c0) / (c1 - (c0::real))"
  by (simp add: diff_divide_distrib)

lemma ramp_neg_eq: "- (1 / (c1 - c0)) * p + - c0 * (1 / (c1 - c0)) = (- p - c0) / (c1 - (c0::real))"
  by (simp add: diff_divide_distrib)

lemma hot_alphas_nth:
  assumes "i < N"
  shows "hot_alphas c s N ! i =
    (let p = real i * pt_last s / real N in
     if p < pt0 c then 0 else if p < pt1 c then (p - pt0 c) / (pt1 c - pt0 c) else 1)"
proof -
  have "hot_alphas c s N ! i =
    (let p = real i * (pt_last s / real N) in
     if p < pt0 c then 0 else if p < pt1 c then (1 / (pt1 c - pt0 c)) * p + (- pt0 c * (1 / (pt1 c - pt0 c))) else 1)"
    using assms by (simp add: hot_alphas_eq)
  then have "hot_alphas c s N ! i =
    (let p = real i * (pt_last s / real N) in
     if p < pt0 c then 0 else if p < pt1 c then (p - pt0 c) / (pt1 c - pt0 c) else 1)"
    by (simp only: ramp_eq)
  then show ?thesis
    by (simp only: times_divide_eq_right)
qed

lemma mne_alphas_nth:
  assumes "i < N" and "0 < pt0 c" and "pt0 c < pt1 c"
  shows "mne_alphas c s N ! i =
    (let p = mne_pos s N i in
     if \<bar>p\<bar> < pt0 c then 0 else if \<bar>p\<bar> < pt1 c then (\<bar>p\<bar> - pt0 c) / (pt1 c - pt0 c) else 1)"
proof -
  have "mne_alphas c s N ! i =
    (let p = mne_pos s N i in
     if - pt0 c < p \<and> p < pt0 c then 0
     else if pt0 c \<le> p \<and> p < pt1 c then (1 / (pt1 c - pt0 c)) * p + (- pt0 c * (1 / (pt1 c - pt0 c)))
     else if p \<le> - pt0 c \<and> - pt1 c < p then (- (1 / (pt1 c - pt0 c))) * p + (- pt0 c * (1 / (pt1 c - pt0 c)))
     else 1)"
    using assms(1) by (simp add: mne_alphas_eq)
  then have "mne_alphas c s N ! i =
    (let p = mne_pos s N i in
     if - pt0 c < p \<and> p < pt0 c then 0
     else if pt0 c \<le> p \<and> p < pt1 c then (p - pt0 c) / (pt1 c - pt0 c)
     else if p \<le> - pt0 c \<and> - pt1 c < p then (- p - pt0 c) / (pt1 c - pt0 c)
     else 1)"
    by (simp only: ramp_eq ramp_neg_eq)
  also have "\<dots> = (let p = mne_pos s N i in
     if \<bar>p\<bar> < pt0 c then 0 else if \<bar>p\<bar> < pt1 c then (\<bar>p\<bar> - pt0 c) / (pt1 c - pt0 c) else 1)"
    using assms(2,3) unfolding Let_def by (cases "mne_pos s N i < 0") (simp_all add: abs_if)
  finally show ?thesis .
qed

lemma length_hot_alphas: "length (hot_alphas c s N) = N"
  by (simp add: hot_alphas_eq)

lemma length_mne_alphas: "length (mne_alphas c s N) = N"
  by (simp add: mne_alphas_eq)

text \<open>
  Claim C3. With the 'hot' colormap and \<^verbatim>\<open>ctrl_pts[0] < ctrl_pts[1]\<close>, the alpha of
  entry \<open>i\<close> of the table, at the position \<open>p = i * scale_pts[-1] / N\<close>, is 0 below
  \<^verbatim>\<open>ctrl_pts[0]\<close>, the linear ramp \<open>(p - ctrl_pts[0]) / (ctrl_pts[1] - ctrl_pts[0])\<close>
  from \<^verbatim>\<open>ctrl_pts[0]\<close> up to \<^verbatim>\<open>ctrl_pts[1]\<close>, and 1 from there on; it lies in
  the interval from 0 to 1.
\<close>

theorem hot_alpha_ramp:
  assumes "pt0 ctrl_pts < pt1 ctrl_pts" and "i < length (get_cmap name)"
  shows "(let N = length (get_cmap name);
              p = real i * pt_last scale_pts / real N;
              a = alpha_of (brain_cmap_table get_cmap ctrl_pts (CmapStr name) scale_pts ! i)
          in a = (if p < pt0 ctrl_pts then 0
                  else if p < pt1 ctrl_pts then (p - pt0 ctrl_pts) / (pt1 ctrl_pts - pt0 ctrl_pts)
                  else 1)
             \<and> 0 \<le> a \<and> a \<le> 1)"
proof -
  let ?N = "length (get_cmap name)"
  let ?p = "real i * pt_last scale_pts / real ?N"
  let ?a = "alpha_of (brain_cmap_table get_cmap ctrl_pts (CmapStr name) scale_pts ! i)"
  have a: "?a = hot_alphas ctrl_pts scale_pts ?N ! i"
    using assms(2) by (simp add: brain_cmap_table_def Let_def length_hot_alphas alpha_of_with_alpha)
  have val: "?a = (if ?p < pt0 ctrl_pts then 0
                  else if ?p < pt1 ctrl_pts then (?p - pt0 ctrl_pts) / (pt1 ctrl_pts - pt0 ctrl_pts)
                  else 1)"
    unfolding a hot_alphas_nth [OF assms(2)] Let_def ..
  have "0 \<le> ?a \<and> ?a \<le> 1"
    unfolding val using assms(1) by simp
  with val show ?thesis unfolding Let_def by blast
qed

theorem hot_alpha_ramp_witness:
  "pt0 (1, 2, 3) < pt1 (1, 2, 3) \<and> 2 < length (replicate 4 (1, 0, 0, 1 :: real)) \<and>
   alpha_of (brain_cmap_table (\<lambda>name. replicate 4 (1, 0, 0, 1)) (1, 2, 3) (CmapStr ''hot'') (1, 2, 3) ! 2) = 1 / 2"
  using hot_alpha_ramp [of "(1, 2, 3)" 2 "\<lambda>name. replicate 4 (1, 0, 0, 1)" "''hot''" "(1, 2, 3)"]
  by (simp add: Let_def)

text \<open>
  Claim C4. With the two-tailed 'mne' colormap and \<^verbatim>\<open>0 < ctrl_pts[0] < ctrl_pts[1]\<close>,
  the alpha of an entry depends on the absolute value of its position \<open>p\<close> only: it is 0
  for \<open>\<bar>p\<bar> < ctrl_pts[0]\<close>, the linear ramp in \<open>\<bar>p\<bar>\<close> between the two control
  points, and 1 for \<open>\<bar>p\<bar> \<ge> ctrl_pts[1]\<close>; two entries at the positions \<open>p\<close> and
  \<open>- p\<close> have the same alpha.
\<close>

theorem mne_alpha_even:
  assumes "0 < pt0 ctrl_pts" and "pt0 ctrl_pts < pt1 ctrl_pts" and "i < length tab"
  shows "(let N = length tab;
              p = mne_pos scale_pts N i;
              alpha = (\<lambda>j. alpha_of (brain_cmap_table get_cmap ctrl_pts (CmapObj tab) scale_pts ! j))
          in alpha i = (if \<bar>p\<bar> < pt0 ctrl_pts then 0
                        else if \<bar>p\<bar> < pt1 ctrl_pts then (\<bar>p\<bar> - pt0 ctrl_pts) / (pt1 ctrl_pts - pt0 ctrl_pts)
                        else 1)
             \<and> (\<forall>j<N. mne_pos scale_pts N j = - p \<longrightarrow> alpha j = alpha i))"
proof -
  let ?N = "length tab"
  let ?c0 = "pt0 ctrl_pts" and ?c1 = "pt1 ctrl_pts"
  let ?alpha = "\<lambda>j. alpha_of (brain_cmap_table get_cmap ctrl_pts (CmapObj tab) scale_pts ! j)"
  let ?ramp = "\<lambda>q::real. if q < ?c0 then 0 else if q < ?c1 then (q - ?c0) / (?c1 - ?c0) else 1"
  have val: "?alpha j = ?ramp \<bar>mne_pos scale_pts ?N j\<bar>" if "j < ?N" for j
  proof -
    have "?alpha j = mne_alphas ctrl_pts scale_pts ?N ! j"
      using that by (simp add: brain_cmap_table_def Let_def length_mne_alphas alpha_of_with_alpha)
    then show ?thesis
      unfolding mne_alphas_nth [OF that assms(1,2)] Let_def .
  qed
  have "?alpha j = ?alpha i" if "j < ?N" "mne_pos scale_pts ?N j = - mne_pos scale_pts ?N i" for j
    unfolding val [OF that(1)] val [OF assms(3)] that(2) abs_minus_cancel ..
  with val [OF assms(3)] show ?thesis unfolding Let_def by blast
qed

theorem mne_alpha_even_witness:
  "0 < pt0 (1/2, 3/2, 2) \<and> pt0 (1/2, 3/2, 2) < pt1 (1/2, 3/2, 2) \<and> 1 < length (replicate 4 (1, 0, 0, 1 :: real)) \<and>
   mne_pos (-2, 0, 2) 4 1 = - 1 \<and> mne_pos (-2, 0, 2) 4 3 = 1 \<and>
   alpha_of (brain_cmap_table (\<lambda>name. []) (1/2, 3/2, 2) (CmapObj (replicate 4 (1, 0, 0, 1))) (-2, 0, 2) ! 1) = 1 / 2 \<and>
   alpha_of (brain_cmap_table (\<lambda>name. []) (1/2, 3/2, 2) (CmapObj (replicate 4 (1, 0, 0, 1))) (-2, 0, 2) ! 3) = 1 / 2"
  using mne_alpha_even [of "(1/2, 3/2, 2)" 1 "replicate 4 (1, 0, 0, 1)" "(-2, 0, 2)" "\<lambda>name. []"]
  by (simp add: Let_def mne_pos_def)

section \<open>Properties of \<^verbatim>\<open>plot_brain_mesh\<close>\<close>

lemma meshes_update_current [simp]: "meshes (update_current upd s) = meshes s"
  by (simp add: update_current_def gcf_def ipv_figure_def Let_def split: option.split prod.split)

lemma meshes_style_view [simp]: "meshes (style_view bg az el s) = meshes s"
  by (simp add: style_view_def style_off_def ipv_view_def squarelim_def)

lemma meshes_ipv_show [simp]: "meshes (ipv_show s) = meshes s"
  by (simp add: ipv_show_def)

lemma meshes_ipv_figure [simp]: "meshes (snd (ipv_figure w h s)) = meshes s"
  by (simp add: ipv_figure_def Let_def)

lemma plot_trisurf_meshes:
  "plot_trisurf x y z t c s = (m, s') \<Longrightarrow>
   m = length (meshes s) \<and>
   meshes s' = meshes s @ [\<lparr>mesh_x = x, mesh_y = y, mesh_z = z, mesh_triangles = t,
                  mesh_color = c, mesh_blended = False\<rparr>]"
  by (auto simp: plot_trisurf_def Let_def)

lemma plot_hemisphere_mesh_overlay:
  assumes "plot_hemisphere_mesh vs fs c (Some act) s = ((m, ov), s')"
  shows "m = length (meshes s) \<and> ov = Some (Suc m) \<and>
         length (meshes s') = length (meshes s) + 2 \<and>
         take (length (meshes s)) (meshes s') = meshes s \<and>
         mesh_color (meshes s' ! m) = c \<and>
         mesh_color (meshes s' ! Suc m) = act \<and> mesh_blended (meshes s' ! Suc m)"
  using assms
  by (auto simp: plot_hemisphere_mesh_def Let_def set_material_def nth_append
      split: prod.splits dest!: plot_trisurf_meshes)


lemma brain_hemi_drawn:
  assumes "brain_hemi env h (Some vs) (Some fs) c off (Some act) s = (r, s')"
  shows "r = Inr (Some (length (meshes s))) \<and>
         length (meshes s') = length (meshes s) + 2 \<and>
         take (length (meshes s)) (meshes s') = meshes s \<and>
         mesh_color (meshes s' ! Suc (length (meshes s))) = act"
proof -
  let ?vs = "case off of None \<Rightarrow> vs | Some x \<Rightarrow> offset_hemi env vs h x"
  obtain m ov s1 where ph: "plot_hemisphere_mesh ?vs fs c (Some act) s = ((m, ov), s1)"
    by (metis surj_pair)
  from assms ph have "r = Inr (Some m)" "s' = s1"
    by (simp_all add: brain_hemi_def Let_def)
  with plot_hemisphere_mesh_overlay [OF ph] show ?thesis by auto
qed

lemma brain_hemi_skipped:
  "vertices = None \<or> faces = None \<Longrightarrow>
   brain_hemi env h vertices faces c off act s = (Inr None, s)"
  by (auto simp: brain_hemi_def split: option.splits)

lemma brain_act_colors_no_lh:
  "isl (brain_act_colors env None (Some d) cs)"
  by (simp add: brain_act_colors_def Let_def split: prod.splits list.splits)

lemma brain_act_colors_split:
  assumes "d \<noteq> []"
  shows "brain_act_colors env (Some lv) (Some d) cs =
    (let (ctrl_pts, rgb_cmap, scale_pts) = limits_to_control_points env d cs;
         cmap = brain_cmap_table (cm_get_cmap env) ctrl_pts rgb_cmap scale_pts;
         k = np_div 1 (Max (set d) - Min (set d));
         b = fsub (Fin 1) (fmul k (Fin (Max (set d))));
         data = map (affine k b) d
     in Inr (Some (ColArr (map (listed_call env cmap) (take (length lv) data))),
             Some (ColArr (map (listed_call env cmap) (drop (length lv) data)))))"
proof -
  obtain x xs where d: "d = x # xs" using assms by (cases d) auto
  have mm: "Min (set d) = fold min xs x" "Max (set d) = fold max xs x"
    by (simp_all only: d Min.set_eq_fold Max.set_eq_fold)
  show ?thesis
    unfolding mm brain_act_colors_def by (simp add: d Let_def split: prod.splits)
qed


lemma brain_hemi_result:
  assumes "brain_hemi env h vertices faces c off (Some act) s = (r, s')"
  shows "\<exists>mesh. r = Inr mesh \<and>
           (mesh \<noteq> None \<longleftrightarrow> vertices \<noteq> None \<and> faces \<noteq> None) \<and>
           length (meshes s) \<le> length (meshes s') \<and>
           take (length (meshes s)) (meshes s') = meshes s \<and>
           (\<forall>m. mesh = Some m \<longrightarrow> Suc m < length (meshes s') \<and> mesh_color (meshes s' ! Suc m) = act)"
proof (cases "vertices = None \<or> faces = None")
  case True
  with assms brain_hemi_skipped [OF True, of env h c off "Some act" s] show ?thesis by auto
next
  case False
  then obtain vs fs where "vertices = Some vs" "faces = Some fs" by auto
  with assms brain_hemi_drawn [of env h vs fs c off act s r s'] show ?thesis by auto
qed

text \<open>
  Claim C8. \<^verbatim>\<open>plot_brain_mesh\<close> splits the activation data at the index
  \<^verbatim>\<open>len(lh_vertices)\<close>: the overlay of the left hemisphere gets the colours of the
  first \<^verbatim>\<open>len(lh_vertices)\<close> values and the overlay of the right hemisphere the
  colours of the other values. A call with activation data and without
  \<^verbatim>\<open>lh_vertices\<close> raises, whatever geometry of the right hemisphere it is given.
\<close>

theorem plot_brain_mesh_split:
  assumes "act_data a = Some d"
  shows "(lh_vertices a = None \<longrightarrow> isl (fst (plot_brain_mesh env a s))) \<and>
    (\<forall>lv. lh_vertices a = Some lv \<and> d \<noteq> [] \<longrightarrow>
      (let (ctrl_pts, rgb_cmap, scale_pts) = limits_to_control_points env d (cmap_str a);
           cmap = brain_cmap_table (cm_get_cmap env) ctrl_pts rgb_cmap scale_pts;
           k = np_div 1 (Max (set d) - Min (set d));
           b = fsub (Fin 1) (fmul k (Fin (Max (set d))));
           data = map (affine k b) d;
           lh_act_colors = ColArr (map (listed_call env cmap) (take (length lv) data));
           rh_act_colors = ColArr (map (listed_call env cmap) (drop (length lv) data))
       in \<exists>fig rh_mesh lh_mesh s'.
            plot_brain_mesh env a s = (Inr (fig, rh_mesh, lh_mesh), s') \<and>
            (lh_mesh \<noteq> None \<longleftrightarrow> lh_faces a \<noteq> None) \<and>
            (rh_mesh \<noteq> None \<longleftrightarrow> rh_vertices a \<noteq> None \<and> rh_faces a \<noteq> None) \<and>
            (\<forall>m. lh_mesh = Some m \<longrightarrow> mesh_color (meshes s' ! Suc m) = lh_act_colors) \<and>
            (\<forall>m. rh_mesh = Some m \<longrightarrow> mesh_color (meshes s' ! Suc m) = rh_act_colors)))"
proof (intro conjI allI impI)
  assume "lh_vertices a = None"
  with assms brain_act_colors_no_lh [of env d "cmap_str a"] show "isl (fst (plot_brain_mesh env a s))"
    by (auto simp: plot_brain_mesh_def Let_def isl_def split: prod.splits)
next
  fix lv assume "lh_vertices a = Some lv \<and> d \<noteq> []"
  then have lv: "lh_vertices a = Some lv" and d: "d \<noteq> []" by simp_all
  obtain ctrl_pts rgb_cmap scale_pts where
    lim: "limits_to_control_points env d (cmap_str a) = (ctrl_pts, rgb_cmap, scale_pts)"
    by (metis prod_cases3)
  define cmap where "cmap = brain_cmap_table (cm_get_cmap env) ctrl_pts rgb_cmap scale_pts"
  define k where "k = np_div 1 (Max (set d) - Min (set d))"
  define b where "b = fsub (Fin 1) (fmul k (Fin (Max (set d))))"
  define L where "L = ColArr (map (listed_call env cmap) (take (length lv) (map (affine k b) d)))"
  define R where "R = ColArr (map (listed_call env cmap) (drop (length lv) (map (affine k b) d)))"
  have cols: "brain_act_colors env (lh_vertices a) (act_data a) (cmap_str a) = Inr (Some L, Some R)"
    unfolding lv assms brain_act_colors_split [OF d]
    by (simp add: lim Let_def cmap_def k_def b_def L_def R_def)
  obtain fig s1 where fg: "ipv_figure (fst (fig_size a)) (snd (fig_size a)) s = (fig, s1)"
    by (metis surj_pair)
  obtain r2 s2 where rh: "brain_hemi env ''rh'' (rh_vertices a) (rh_faces a) (rh_color a) (offset a)
      (Some R) s1 = (r2, s2)"
    by (metis surj_pair)
  obtain r3 s3 where lh: "brain_hemi env ''lh'' (lh_vertices a) (lh_faces a) (lh_color a) (offset a)
      (Some L) s2 = (r3, s3)"
    by (metis surj_pair)
  from brain_hemi_result [OF rh] obtain rh_mesh where
    r2: "r2 = Inr rh_mesh" "rh_mesh \<noteq> None \<longleftrightarrow> rh_vertices a \<noteq> None \<and> rh_faces a \<noteq> None"
      "\<forall>m. rh_mesh = Some m \<longrightarrow> Suc m < length (meshes s2) \<and> mesh_color (meshes s2 ! Suc m) = R"
    by blast
  from brain_hemi_result [OF lh] obtain lh_mesh where
    r3: "r3 = Inr lh_mesh" "lh_mesh \<noteq> None \<longleftrightarrow> lh_vertices a \<noteq> None \<and> lh_faces a \<noteq> None"
      "take (length (meshes s2)) (meshes s3) = meshes s2"
      "\<forall>m. lh_mesh = Some m \<longrightarrow> Suc m < length (meshes s3) \<and> mesh_color (meshes s3 ! Suc m) = L"
    by blast
  let ?s' = "ipv_show (style_view ''black'' (azimuth a) (elevation a) s3)"
  have res: "plot_brain_mesh env a s = (Inr (fig, rh_mesh, lh_mesh), ?s')"
    by (simp add: plot_brain_mesh_def fg cols rh lh r2(1) r3(1) Let_def)
  have keep: "meshes s3 ! i = meshes s2 ! i" if "i < length (meshes s2)" for i
    using that nth_take [of i "length (meshes s2)" "meshes s3"] r3(3) by simp
  have rcol: "mesh_color (meshes ?s' ! Suc m) = R" if "rh_mesh = Some m" for m
    using that r2(3) keep by simp
  have lcol: "mesh_color (meshes ?s' ! Suc m) = L" if "lh_mesh = Some m" for m
    using that r3(4) by simp
  have "\<exists>fig rh_mesh lh_mesh s'.
            plot_brain_mesh env a s = (Inr (fig, rh_mesh, lh_mesh), s') \<and>
            (lh_mesh \<noteq> None \<longleftrightarrow> lh_faces a \<noteq> None) \<and>
            (rh_mesh \<noteq> None \<longleftrightarrow> rh_vertices a \<noteq> None \<and> rh_faces a \<noteq> None) \<and>
            (\<forall>m. lh_mesh = Some m \<longrightarrow> mesh_color (meshes s' ! Suc m) = L) \<and>
            (\<forall>m. rh_mesh = Some m \<longrightarrow> mesh_color (meshes s' ! Suc m) = R)"
    using res r2(2) r3(2) rcol lcol lv by blast
  then show "(let (ctrl_pts, rgb_cmap, scale_pts) = limits_to_control_points env d (cmap_str a);
           cmap = brain_cmap_table (cm_get_cmap env) ctrl_pts rgb_cmap scale_pts;
           k = np_div 1 (Max (set d) - Min (set d));
           b = fsub (Fin 1) (fmul k (Fin (Max (set d))));
           data = map (affine k b) d;
           lh_act_colors = ColArr (map (listed_call env cmap) (take (length lv) data));
           rh_act_colors = ColArr (map (listed_call env cmap) (drop (length lv) data))
       in \<exists>fig rh_mesh lh_mesh s'.
            plot_brain_mesh env a s = (Inr (fig, rh_mesh, lh_mesh), s') \<and>
            (lh_mesh \<noteq> None \<longleftrightarrow> lh_faces a \<noteq> None) \<and>
            (rh_mesh \<noteq> None \<longleftrightarrow> rh_vertices a \<noteq> None \<and> rh_faces a \<noteq> None) \<and>
            (\<forall>m. lh_mesh = Some m \<longrightarrow> mesh_color (meshes s' ! Suc m) = lh_act_colors) \<and>
            (\<forall>m. rh_mesh = Some m \<longrightarrow> mesh_color (meshes s' ! Suc m) = rh_act_colors))"
    unfolding lim Let_def prod.case cmap_def [symmetric] k_def [symmetric] b_def [symmetric]
      L_def [symmetric] R_def [symmetric] .
qed


theorem plot_brain_mesh_split_witness:
  "act_data ex_brain_args = Some [1, 3] \<and> lh_vertices ex_brain_args = Some [(- 1, 0, 0)] \<and>
   (\<exists>fig rh_mesh lh_mesh s'.
      plot_brain_mesh ex_brain_env ex_brain_args empty_scene = (Inr (fig, rh_mesh, lh_mesh), s') \<and>
      lh_mesh \<noteq> None \<and> rh_mesh \<noteq> None \<and>
      (\<forall>m. lh_mesh = Some m \<longrightarrow> mesh_color (meshes s' ! Suc m) = ColArr [(0, 0, 0, 1)]) \<and>
      (\<forall>m. rh_mesh = Some m \<longrightarrow> mesh_color (meshes s' ! Suc m) = ColArr [(1, 1, 1, 1)]))"
  using plot_brain_mesh_split [of ex_brain_args "[1, 3]" ex_brain_env empty_scene]
  by (simp add: ex_brain_args_def ex_brain_env_def Let_def np_div_def affine_def echo_call_def)

section \<open>Properties of \<^verbatim>\<open>plot_source_estimates\<close>\<close>

lemma gcf_Some: "current s = Some fig \<Longrightarrow> gcf s = (fig, s)"
  by (simp add: gcf_def)

lemma update_current_Some:
  "current s = Some fig \<Longrightarrow>
   update_current upd s = s\<lparr>figures := (figures s)[fig := upd (figures s ! fig)]\<rparr>"
  by (simp add: update_current_def gcf_Some)

lemma plot_trisurf_frame:
  assumes "current s = Some f" and "plot_trisurf x y z t c s = (m, s')"
  shows "current s' = Some f \<and> length (figures s') = length (figures s) \<and>
         container s' = container s \<and> shown s' = shown s"
  using assms by (auto simp: plot_trisurf_def Let_def update_current_Some)

lemma plot_hemisphere_mesh_frame:
  assumes "current s = Some f" and "plot_hemisphere_mesh vs fs c act s = (r, s')"
  shows "current s' = Some f \<and> length (figures s') = length (figures s) \<and>
         container s' = container s \<and> shown s' = shown s"
proof -
  let ?x = "map (\<lambda>(x, y, z). x) vs" and ?y = "map (\<lambda>(x, y, z). y) vs" and ?z = "map (\<lambda>(x, y, z). z) vs"
  obtain m s1 where t1: "plot_trisurf ?x ?y ?z fs c s = (m, s1)" by (metis surj_pair)
  note f1 = plot_trisurf_frame [OF assms(1) t1]
  show ?thesis
  proof (cases act)
    case None
    with assms(2) t1 f1 show ?thesis by (simp add: plot_hemisphere_mesh_def Let_def)
  next
    case (Some ac)
    obtain m2 s2 where t2: "plot_trisurf ?x ?y ?z fs ac s1 = (m2, s2)" by (metis surj_pair)
    from f1 have "current s1 = Some f" by simp
    note f2 = plot_trisurf_frame [OF this t2]
    from assms(2) t1 t2 Some have "s' = set_material m2 s2"
      by (simp add: plot_hemisphere_mesh_def Let_def)
    with f1 f2 show ?thesis by (simp add: set_material_def)
  qed
qed

lemma style_view_frame:
  assumes "current s = Some f"
  shows "current (style_view bg az el s) = Some f \<and>
         length (figures (style_view bg az el s)) = length (figures s) \<and>
         container (style_view bg az el s) = container s \<and>
         shown (style_view bg az el s) = shown s"
  using assms by (simp add: style_view_def style_off_def ipv_view_def squarelim_def update_current_Some)

lemma hemi_step_nonsplit:
  assumes "a_hemi a \<noteq> ''split''" and "current (ls_scene ls) = Some f"
    and "views_dict view = Some ea"
  shows "\<exists>ls'. hemi_step env a p view h ls = Inr ls' \<and>
           ls_fig ls' = ls_fig ls \<and> ls_figs_row ls' = ls_figs_row ls \<and> ls_figs ls' = ls_figs ls \<and>
           current (ls_scene ls') = Some f \<and>
           length (figures (ls_scene ls')) = length (figures (ls_scene ls)) \<and>
           container (ls_scene ls') = container (ls_scene ls) \<and>
           shown (ls_scene ls') = shown (ls_scene ls)"
proof (cases "0 < length (hemi_data (p_n_lh p) h (p_stc_data p)) \<and>
              p_hemi_vertices p h \<noteq> None \<and> p_hemi_faces p h \<noteq> None")
  case False
  with assms(2) show ?thesis
    by (auto simp: hemi_step_def Let_def split: option.splits)
next
  case True
  then obtain vs fs where vf: "p_hemi_vertices p h = Some vs" "p_hemi_faces p h = Some fs"
    and d: "0 < length (hemi_data (p_n_lh p) h (p_stc_data p))" by auto
  obtain elev azim where ea: "ea = (elev, azim)" by (cases ea)
  let ?act = "act_colors_of (p_cmap p) (p_k p) (p_b p) (hemi_data (p_n_lh p) h (p_stc_data p))"
  obtain mw hm s1 where ph: "plot_hemisphere_mesh (offset_hemi0 env vs h) fs (read_morph env h)
      (Some ?act) (ls_scene ls) = ((mw, hm), s1)"
    by (metis surj_pair)
  note f1 = plot_hemisphere_mesh_frame [OF assms(2) ph]
  then have c1: "current s1 = Some f" by simp
  have "hemi_step env a p view h ls =
      Inr (ls\<lparr>ls_scene := style_view (a_background a) azim elev s1,
              ls_hemi_meshes := (ls_hemi_meshes ls)(mesh_key h view \<mapsto> hm)\<rparr>)"
    using d vf assms(1,3) ph ea by (simp add: hemi_step_def Let_def)
  with f1 style_view_frame [OF c1, of "a_background a" azim elev] show ?thesis by simp
qed

lemma hemis_loop_nonsplit:
  assumes "a_hemi a \<noteq> ''split''" and "current (ls_scene ls) = Some f"
    and "views_dict view = Some ea"
  shows "\<exists>ls'. hemis_loop env a p view hs ls = Inr ls' \<and>
           ls_fig ls' = ls_fig ls \<and> ls_figs_row ls' = ls_figs_row ls \<and> ls_figs ls' = ls_figs ls \<and>
           current (ls_scene ls') = Some f \<and>
           length (figures (ls_scene ls')) = length (figures (ls_scene ls)) \<and>
           container (ls_scene ls') = container (ls_scene ls) \<and>
           shown (ls_scene ls') = shown (ls_scene ls)"
  using assms(2)
proof (induction hs arbitrary: ls)
  case Nil
  then show ?case by simp
next
  case (Cons h hs)
  from hemi_step_nonsplit [OF assms(1) Cons.prems assms(3), of env p h]
  obtain ls1 where s1: "hemi_step env a p view h ls = Inr ls1"
    and k1: "ls_fig ls1 = ls_fig ls" "ls_figs_row ls1 = ls_figs_row ls" "ls_figs ls1 = ls_figs ls"
      "current (ls_scene ls1) = Some f"
      "length (figures (ls_scene ls1)) = length (figures (ls_scene ls))"
      "container (ls_scene ls1) = container (ls_scene ls)"
      "shown (ls_scene ls1) = shown (ls_scene ls)"
    by blast
  from Cons.IH [OF k1(4)] s1 k1 show ?case by simp
qed

lemma new_figure_props:
  assumes "new_figure p s = (fig, s')"
  shows "fig = length (figures s) \<and> current s' = Some fig \<and>
         length (figures s') = Suc (length (figures s)) \<and> shown s' = shown s \<and>
         meshes s' = meshes s"
  using assms by (auto simp: new_figure_def ipv_figure_def set_animation_def Let_def)

lemma view_step_nonsplit:
  assumes "a_hemi a \<noteq> ''split''" and "views_dict view = Some ea"
  shows "\<exists>ls'. view_step env a p view ls = Inr ls' \<and>
           ls_figs ls' = ls_figs ls @ [OneFig (length (figures (ls_scene ls)))] \<and>
           length (figures (ls_scene ls')) = Suc (length (figures (ls_scene ls))) \<and>
           current (ls_scene ls') = Some (length (figures (ls_scene ls))) \<and>
           shown (ls_scene ls') = shown (ls_scene ls)"
proof -
  obtain fig s1 where nf: "new_figure p (ls_scene ls) = (fig, s1)" by (metis surj_pair)
  note n = new_figure_props [OF nf]
  let ?ls1 = "ls\<lparr>ls_figs_row := None, ls_scene := s1, ls_fig := Some fig\<rparr>"
  have c: "current (ls_scene ?ls1) = Some fig" using n by simp
  from hemis_loop_nonsplit [OF assms(1) c assms(2), of env p "p_hemis p"]
  obtain ls2 where h: "hemis_loop env a p view (p_hemis p) ?ls1 = Inr ls2"
    and k: "ls_fig ls2 = Some fig" "ls_figs_row ls2 = None" "ls_figs ls2 = ls_figs ls"
      "current (ls_scene ls2) = Some fig"
      "length (figures (ls_scene ls2)) = length (figures s1)"
      "shown (ls_scene ls2) = shown s1"
    by auto
  have "view_step env a p view ls = Inr (ls2\<lparr>ls_figs := ls_figs ls2 @ [OneFig fig]\<rparr>)"
    using assms(1) nf h k by (simp add: view_step_def Let_def)
  with k n show ?thesis by simp
qed

lemma views_loop_nonsplit:
  assumes "a_hemi a \<noteq> ''split''" and "check_views views = Inr ()"
  shows "\<exists>ls'. views_loop env a p views ls = Inr ls' \<and>
           ls_figs ls' = ls_figs ls @
             map (\<lambda>i. OneFig (length (figures (ls_scene ls)) + i)) [0..<length views] \<and>
           length (figures (ls_scene ls')) = length (figures (ls_scene ls)) + length views \<and>
           shown (ls_scene ls') = shown (ls_scene ls)"
  using assms(2)
proof (induction views arbitrary: ls)
  case Nil
  then show ?case by simp
next
  case (Cons view views)
  from Cons.prems have vd: "views_dict view \<noteq> None" and rest: "check_views views = Inr ()"
    by (simp_all split: if_splits)
  then obtain ea where ea: "views_dict view = Some ea" by auto
  define n where "n = length (figures (ls_scene ls))"
  from view_step_nonsplit [OF assms(1) ea, of env p ls]
  obtain ls1 where s1: "view_step env a p view ls = Inr ls1"
    and k1: "ls_figs ls1 = ls_figs ls @ [OneFig n]"
      "length (figures (ls_scene ls1)) = Suc n"
      "shown (ls_scene ls1) = shown (ls_scene ls)"
    unfolding n_def by blast
  from Cons.IH [OF rest, of ls1]
  obtain ls2 where s2: "views_loop env a p views ls1 = Inr ls2"
    and k2: "ls_figs ls2 = ls_figs ls1 @ map (\<lambda>i. OneFig (Suc n + i)) [0..<length views]"
      "length (figures (ls_scene ls2)) = Suc n + length views"
      "shown (ls_scene ls2) = shown (ls_scene ls1)"
    unfolding k1(2) by blast
  have "views_loop env a p (view # views) ls = Inr ls2" using s1 s2 by simp
  moreover have "ls_figs ls2 = ls_figs ls @ map (\<lambda>i. OneFig (n + i)) [0..<length (view # views)]"
    unfolding k2(1) k1 by (simp add: map_upt_Suc del: upt_Suc)
  ultimately show ?case using k2 k1 unfolding n_def [symmetric] by simp
qed


lemma pse_validate_Inr:
  assumes "pse_validate env a = Inr (views, subjects_dir, subject, foreground)"
  shows "views = normalise_views (a_views a) \<and> check_views views = Inr () \<and>
         get_subjects_dir env = Inr subjects_dir \<and> check_subject env = Inr subject \<and>
         foreground = (case a_foreground a of None \<Rightarrow> ''black'' | Some f \<Rightarrow> f) \<and>
         a_stc_is_SourceEstimate a \<and> a_colormap a \<noteq> None \<and> a_cortex a = Some ''classic'' \<and>
         a_figure_is_None a \<and> a_hemi a \<in> {''lh'', ''rh'', ''split'', ''both''}"
  using assms
  by (simp add: pse_validate_def Let_def split: if_splits sum.splits)

lemma fig_widgets_OneFig: "fig_widgets (map OneFig xs) = Inr (map FigureW xs)"
  by (induction xs) simp_all

lemma container_set_children: "container (set_children ws s) = ws"
  by (simp add: set_children_def gcf_def ipv_figure_def Let_def split: option.splits prod.splits)

lemma pse_nonsplit:
  assumes val: "pse_validate env a = Inr (views, subjects_dir, subject, foreground)"
    and prep: "pse_prepare env a subject = Inr p"
    and ns: "a_hemi a \<noteq> ''split''"
  shows "\<exists>(ls::loop_state) s1. ls_figs ls = map (\<lambda>i. OneFig (length (figures s) + i)) [0..<length views] \<and>
           container s1 = HTML foreground (p_title p) #
              map (\<lambda>i. FigureW (length (figures s) + i)) [0..<length views] \<and>
           plot_source_estimates env a s =
             (case pse_controls env a p views (ls_hemi_meshes ls) s1 of
                Inl (e, s2) \<Rightarrow> (Inl e, s2, None, None)
              | Inr (s2, v, cb) \<Rightarrow> (Inr (ls_figs ls), ipv_show s2, v, cb))"
proof -
  let ?init = "\<lparr>ls_scene = s, ls_fig = None, ls_figs_row = None,
                 ls_hemi_meshes = Map.empty, ls_figs = []\<rparr>"
  from pse_validate_Inr [OF val] have cv: "check_views views = Inr ()" by blast
  from views_loop_nonsplit [OF ns cv, of env p ?init]
  obtain ls where l: "views_loop env a p views ?init = Inr ls"
    and figs: "ls_figs ls = map (\<lambda>i. OneFig (length (figures s) + i)) [0..<length views]"
    by auto
  have fw: "fig_widgets (ls_figs ls) = Inr (map (\<lambda>i. FigureW (length (figures s) + i)) [0..<length views])"
    using fig_widgets_OneFig [of "map (\<lambda>i. length (figures s) + i) [0..<length views]"]
    by (simp add: figs comp_def)
  let ?ws = "HTML foreground (p_title p) # map (\<lambda>i. FigureW (length (figures s) + i)) [0..<length views]"
  have ch: "pse_children a foreground (p_title p) (ls_figs ls) (ls_scene ls) =
      Inr (set_children ?ws (ls_scene ls))"
    using ns fw by (simp add: pse_children_def Let_def)
  have ps: "plot_source_estimates env a s =
      (case pse_controls env a p views (ls_hemi_meshes ls) (set_children ?ws (ls_scene ls)) of
                Inl (e, s2) \<Rightarrow> (Inl e, s2, None, None)
              | Inr (s2, v, cb) \<Rightarrow> (Inr (ls_figs ls), ipv_show s2, v, cb))"
    by (simp add: plot_source_estimates_def val prep l ch)
  have cs: "container (set_children ?ws (ls_scene ls)) = ?ws"
    by (rule container_set_children)
  show ?thesis
    apply (rule exI [where x = ls], rule exI [where x = "set_children ?ws (ls_scene ls)"])
    apply (intro conjI)
      apply (rule figs)
     apply (rule cs)
    apply (rule ps)
    done
qed

text \<open>
  Claim C10. For \<^verbatim>\<open>hemi\<close> one of \<^verbatim>\<open>'lh'\<close>, \<^verbatim>\<open>'rh'\<close> and \<^verbatim>\<open>'both'\<close>, a call that
  returns normally returns a list with one figure for each requested view, in the order
  of the views: entry \<open>i\<close> is the figure that the pass of the loop for view \<open>i\<close>
  created, the \<open>i\<close>-th new figure of the scene.
\<close>

theorem figs_one_per_view:
  assumes "a_hemi a \<in> {''lh'', ''rh'', ''both''}"
    and "fst (plot_source_estimates env a s) = Inr figs"
  shows "length figs = length (normalise_views (a_views a)) \<and>
         (\<forall>i < length (normalise_views (a_views a)). figs ! i = OneFig (length (figures s) + i))"
proof -
  from assms(1) have ns: "a_hemi a \<noteq> ''split''" by auto
  from assms(2) obtain views subjects_dir subject foreground
    where val: "pse_validate env a = Inr (views, subjects_dir, subject, foreground)"
    by (cases "pse_validate env a") (auto simp: plot_source_estimates_def)
  from assms(2) val obtain p where prep: "pse_prepare env a subject = Inr p"
    by (cases "pse_prepare env a subject") (auto simp: plot_source_estimates_def)
  from pse_nonsplit [OF val prep ns, of s] obtain ls :: loop_state and s1 where
    figs: "ls_figs ls = map (\<lambda>i. OneFig (length (figures s) + i)) [0..<length views]"
    and r: "plot_source_estimates env a s =
             (case pse_controls env a p views (ls_hemi_meshes ls) s1 of
                Inl (e, s2) \<Rightarrow> (Inl e, s2, None, None)
              | Inr (s2, v, cb) \<Rightarrow> (Inr (ls_figs ls), ipv_show s2, v, cb))"
    by blast
  from assms(2) r have "figs = ls_figs ls"
    by (auto split: sum.splits prod.splits)
  moreover from pse_validate_Inr [OF val] have "views = normalise_views (a_views a)" by blast
  ultimately show ?thesis using figs by simp
qed


lemma views_dict_None:
  "views_dict view = None \<longleftrightarrow>
   view \<notin> {''lat'', ''med'', ''fos'', ''cau'', ''dor'', ''ven'', ''fro'', ''par''}"
  by (simp add: views_dict_def)

lemma check_views_cases:
  "check_views views =
     (if \<forall>view \<in> set views. view \<in> {''lat'', ''med'', ''fos'', ''cau'', ''dor'', ''ven'', ''fro'', ''par''}
      then Inr () else Inl ValueError)"
  by (induction views) (simp_all add: views_dict_None)

text \<open>
  Claim C9. \<^verbatim>\<open>plot_source_estimates\<close> checks its arguments before it creates a figure
  or a widget. When \<^verbatim>\<open>stc\<close> is not a \<^verbatim>\<open>SourceEstimate\<close>, a view is not one of the
  eight names, \<^verbatim>\<open>hemi\<close> is not one of the four names, \<^verbatim>\<open>colormap\<close> is not a string,
  \<^verbatim>\<open>cortex\<close> is not \<^verbatim>\<open>'classic'\<close> or \<^verbatim>\<open>figure\<close> is given, the call raises and
  the scene is as before. The exception is that of the first check that fails, in the
  order of the source: \<^verbatim>\<open>ValueError\<close> for \<^verbatim>\<open>stc\<close> and the views, then (once
  \<^verbatim>\<open>get_subjects_dir\<close> and \<^verbatim>\<open>_check_subject\<close> have returned) \<^verbatim>\<open>NotImplementedError\<close>
  for \<^verbatim>\<open>colormap\<close>, \<^verbatim>\<open>cortex\<close> and \<^verbatim>\<open>figure\<close>, then \<^verbatim>\<open>ValueError\<close> for
  \<^verbatim>\<open>hemi\<close>.
\<close>

theorem validation_before_side_effects:
  fixes env :: pse_env and a :: pse_args and s :: scene
  defines "bad_view \<equiv> \<exists>view \<in> set (normalise_views (a_views a)).
      view \<notin> {''lat'', ''med'', ''fos'', ''cau'', ''dor'', ''ven'', ''fro'', ''par''}"
    and "bad_hemi \<equiv> a_hemi a \<notin> {''lh'', ''rh'', ''split'', ''both''}"
    and "unsupported \<equiv> a_colormap a = None \<or> a_cortex a \<noteq> Some ''classic'' \<or> \<not> a_figure_is_None a"
  shows "(\<not> a_stc_is_SourceEstimate a \<or> bad_view \<or> bad_hemi \<or> unsupported \<longrightarrow>
            (\<exists>e. plot_source_estimates env a s = (Inl e, s, None, None))) \<and>
         (\<not> a_stc_is_SourceEstimate a \<or> bad_view \<longrightarrow>
            plot_source_estimates env a s = (Inl ValueError, s, None, None)) \<and>
         (a_stc_is_SourceEstimate a \<and> \<not> bad_view \<and> \<not> isl (get_subjects_dir env) \<and>
          \<not> isl (check_subject env) \<longrightarrow>
            (unsupported \<longrightarrow>
               plot_source_estimates env a s = (Inl NotImplementedError, s, None, None)) \<and>
            (\<not> unsupported \<and> bad_hemi \<longrightarrow>
               plot_source_estimates env a s = (Inl ValueError, s, None, None)))"
proof -
  have cv: "check_views (normalise_views (a_views a)) = (if bad_view then Inl ValueError else Inr ())"
    unfolding bad_view_def check_views_cases by auto
  have A: "\<exists>e. pse_validate env a = Inl e"
    if "\<not> a_stc_is_SourceEstimate a \<or> bad_view \<or> bad_hemi \<or> unsupported"
    using that unfolding bad_hemi_def unsupported_def
    by (auto simp: pse_validate_def Let_def cv split: sum.splits)
  have B: "pse_validate env a = Inl ValueError" if "\<not> a_stc_is_SourceEstimate a \<or> bad_view"
    using that by (auto simp: pse_validate_def Let_def cv)
  have C: "pse_validate env a = Inl NotImplementedError"
    if "a_stc_is_SourceEstimate a" "\<not> bad_view" "\<not> isl (get_subjects_dir env)"
      "\<not> isl (check_subject env)" "unsupported"
    using that unfolding unsupported_def
    by (auto simp: pse_validate_def Let_def cv isl_def split: sum.splits)
  have D: "pse_validate env a = Inl ValueError"
    if "a_stc_is_SourceEstimate a" "\<not> bad_view" "\<not> isl (get_subjects_dir env)"
      "\<not> isl (check_subject env)" "\<not> unsupported" "bad_hemi"
    using that unfolding unsupported_def bad_hemi_def
    by (auto simp: pse_validate_def Let_def cv isl_def split: sum.splits)
  have R: "plot_source_estimates env a s = (Inl e, s, None, None)" if "pse_validate env a = Inl e" for e
    using that by (simp add: plot_source_estimates_def)
  show ?thesis
    using A B C D R by metis
qed

theorem validation_before_side_effects_witness:
  "a_hemi (ex_args\<lparr>a_hemi := ''top''\<rparr>) \<notin> {''lh'', ''rh'', ''split'', ''both''} \<and>
   a_stc_is_SourceEstimate (ex_args\<lparr>a_hemi := ''top''\<rparr>) \<and>
   \<not> isl (get_subjects_dir ex_env) \<and> \<not> isl (check_subject ex_env) \<and>
   plot_source_estimates ex_env (ex_args\<lparr>a_hemi := ''top''\<rparr>) empty_scene =
     (Inl ValueError, empty_scene, None, None)"
  using validation_before_side_effects [of "ex_args\<lparr>a_hemi := ''top''\<rparr>" ex_env empty_scene]
  by (simp add: ex_args_def ex_env_def normalise_views_def)


lemma ex_validate:
  "pse_validate ex_env (ex_args\<lparr>a_views := vs, a_time_viewer := tv\<rparr>) =
     (case check_views (normalise_views vs) of
        Inl e \<Rightarrow> Inl e
      | Inr u \<Rightarrow> Inr (normalise_views vs, ''subjects'', ''sample'', ''black''))"
  by (simp add: pse_validate_def ex_env_def ex_args_def Let_def split: sum.splits)

lemma ex_prepare:
  "\<exists>p. pse_prepare ex_env (ex_args\<lparr>a_views := vs, a_time_viewer := tv\<rparr>) ''sample'' = Inr p \<and>
       p_title p = ''Sample'' \<and> p_time_label p = TLStr ''t=%d'' \<and> p_times p = [0, 100] \<and>
       p_time_idx p = 0"
  by (simp add: pse_prepare_def ex_env_def ex_args_def initial_time_idx_def stc_data_at_def
      norm_coeffs_def Let_def)

theorem figs_one_per_view_witness:
  "a_hemi (ex_args\<lparr>a_views := ViewSeq [''lat'', ''med''], a_time_viewer := True\<rparr>)
     \<in> {''lh'', ''rh'', ''both''} \<and>
   fst (plot_source_estimates ex_env
          (ex_args\<lparr>a_views := ViewSeq [''lat'', ''med''], a_time_viewer := True\<rparr>) empty_scene) =
     Inr [OneFig 0, OneFig 1]"
proof -
  let ?a = "ex_args\<lparr>a_views := ViewSeq [''lat'', ''med''], a_time_viewer := True\<rparr>"
  have hemi: "a_hemi ?a \<in> {''lh'', ''rh'', ''both''}" and ns: "a_hemi ?a \<noteq> ''split''"
    by (simp_all add: ex_args_def)
  have val: "pse_validate ex_env ?a = Inr ([''lat'', ''med''], ''subjects'', ''sample'', ''black'')"
    by (simp add: ex_validate normalise_views_def views_dict_def)
  from ex_prepare [where vs = "ViewSeq [''lat'', ''med'']" and tv = True]
  obtain p where prep: "pse_prepare ex_env ?a ''sample'' = Inr p"
    and p: "p_time_label p = TLStr ''t=%d''" "p_times p = [0, 100]" "p_time_idx p = 0"
    by blast
  from pse_nonsplit [OF val prep ns, of empty_scene]
  obtain ls :: loop_state and s1 where
    r: "plot_source_estimates ex_env ?a empty_scene =
         (case pse_controls ex_env ?a p [''lat'', ''med''] (ls_hemi_meshes ls) s1 of
            Inl (e, s2) \<Rightarrow> (Inl e, s2, None, None)
          | Inr (s2, v, cb) \<Rightarrow> (Inr (ls_figs ls), ipv_show s2, v, cb))"
    by blast
  have "\<exists>figs. fst (plot_source_estimates ex_env ?a empty_scene) = Inr figs"
    unfolding r by (simp add: pse_controls_def animation_control_def make_label_def p Let_def ex_args_def)
  then obtain figs where f: "fst (plot_source_estimates ex_env ?a empty_scene) = Inr figs" ..
  from figs_one_per_view [OF hemi f] have "figs = [OneFig 0, OneFig 1]"
    by (intro nth_equalityI) (auto simp: ex_args_def normalise_views_def empty_scene_def less_Suc_eq numeral_2_eq_2)
  with hemi f show ?thesis by simp
qed

text \<open>
  Claim C2, at \<^verbatim>\<open>colorbar=True\<close> and \<^verbatim>\<open>time_viewer=False\<close>: the call returns its
  figure, and the container that is shown holds the title and the figure only; no
  colorbar was created.
\<close>

theorem colorbar_without_time_viewer:
  "a_colorbar (ex_args\<lparr>a_views := ViewOne ''lat'', a_time_viewer := False\<rparr>) \<and>
   (case plot_source_estimates ex_env
           (ex_args\<lparr>a_views := ViewOne ''lat'', a_time_viewer := False\<rparr>) empty_scene of
      (r, s', v, cb) \<Rightarrow>
        r = Inr [OneFig 0] \<and> shown s' \<and>
        container s' = [HTML ''black'' ''Sample'', FigureW 0] \<and> v = None \<and> cb = None)"
proof -
  let ?a = "ex_args\<lparr>a_views := ViewOne ''lat'', a_time_viewer := False\<rparr>"
  have ns: "a_hemi ?a \<noteq> ''split''" and cb: "a_colorbar ?a" and tv: "\<not> a_time_viewer ?a"
    by (simp_all add: ex_args_def)
  have val: "pse_validate ex_env ?a = Inr ([''lat''], ''subjects'', ''sample'', ''black'')"
    by (simp add: ex_validate normalise_views_def views_dict_def)
  from ex_prepare [where vs = "ViewOne ''lat''" and tv = False]
  obtain p where prep: "pse_prepare ex_env ?a ''sample'' = Inr p" and p: "p_title p = ''Sample''"
    by blast
  from pse_nonsplit [OF val prep ns, of empty_scene]
  obtain ls :: loop_state and s1 where
    figs: "ls_figs ls = [OneFig 0]" and
    c: "container s1 = [HTML ''black'' ''Sample'', FigureW 0]" and
    r: "plot_source_estimates ex_env ?a empty_scene =
         (case pse_controls ex_env ?a p [''lat''] (ls_hemi_meshes ls) s1 of
            Inl (e, s2) \<Rightarrow> (Inl e, s2, None, None)
          | Inr (s2, v, cb) \<Rightarrow> (Inr (ls_figs ls), ipv_show s2, v, cb))"
    by (auto simp: p empty_scene_def)
  show ?thesis
    unfolding r using tv cb figs c by (simp add: pse_controls_def ipv_show_def)
qed

section \<open>Properties of the handlers\<close>

lemma set_mesh_color_frame:
  "figures (set_mesh_color m c s) = figures s \<and> current (set_mesh_color m c s) = current s \<and>
   container (set_mesh_color m c s) = container s \<and> shown (set_mesh_color m c s) = shown s \<and>
   length (meshes (set_mesh_color m c s)) = length (meshes s)"
  by (simp add: set_mesh_color_def)

lemma apply_writes_Nil [simp]: "apply_writes [] s = s"
  by (simp add: apply_writes_def)

lemma apply_writes_Cons [simp]: "apply_writes ((m, c) # ws) s = apply_writes ws (set_mesh_color m c s)"
  by (simp add: apply_writes_def)

lemma apply_writes_append: "apply_writes (ws @ ws') s = apply_writes ws' (apply_writes ws s)"
  by (simp add: apply_writes_def)

lemma apply_writes_frame:
  "figures (apply_writes ws s) = figures s \<and> current (apply_writes ws s) = current s \<and>
   container (apply_writes ws s) = container s \<and> shown (apply_writes ws s) = shown s \<and>
   length (meshes (apply_writes ws s)) = length (meshes s)"
proof (induction ws arbitrary: s)
  case Nil
  show ?case by simp
next
  case (Cons w ws)
  obtain m c where w: "w = (m, c)" by (cases w)
  show ?case unfolding w apply_writes_Cons using Cons [of "set_mesh_color m c s"]
    by (simp add: set_mesh_color_frame)
qed

lemma apply_writes_stable:
  assumes "i < length (meshes s)"
    and "\<forall>c'. (i, c') \<in> set ws \<longrightarrow> c' = mesh_color (meshes s ! i)"
  shows "meshes (apply_writes ws s) ! i = meshes s ! i"
  using assms
proof (induction ws arbitrary: s)
  case Nil
  show ?case by simp
next
  case (Cons w ws)
  obtain m c where w: "w = (m, c)" by (cases w)
  let ?s1 = "set_mesh_color m c s"
  have same: "meshes ?s1 ! i = meshes s ! i"
  proof (cases "m = i")
    case True
    with Cons.prems(2) w have "c = mesh_color (meshes s ! i)" by simp
    with True Cons.prems(1) show ?thesis by (simp add: set_mesh_color_def)
  next
    case False
    then show ?thesis by (simp add: set_mesh_color_def)
  qed
  have "meshes (apply_writes ws ?s1) ! i = meshes ?s1 ! i"
  proof (rule Cons.IH)
    show "i < length (meshes ?s1)" using Cons.prems(1) by (simp add: set_mesh_color_def)
    show "\<forall>c'. (i, c') \<in> set ws \<longrightarrow> c' = mesh_color (meshes ?s1 ! i)"
      using Cons.prems(2) same by simp
  qed
  with same show ?case unfolding w by simp
qed

lemma apply_writes_written:
  assumes "i < length (meshes s)" and "(i, c) \<in> set ws"
    and "\<forall>c'. (i, c') \<in> set ws \<longrightarrow> c' = c"
  shows "meshes (apply_writes ws s) ! i = (meshes s ! i)\<lparr>mesh_color := c\<rparr>"
  using assms
proof (induction ws arbitrary: s)
  case Nil
  then show ?case by simp
next
  case (Cons w ws)
  obtain m c0 where w: "w = (m, c0)" by (cases w)
  let ?s1 = "set_mesh_color m c0 s"
  have len: "i < length (meshes ?s1)" using Cons.prems(1) by (simp add: set_mesh_color_def)
  have fn: "\<forall>c'. (i, c') \<in> set ws \<longrightarrow> c' = c" using Cons.prems(3) by simp
  show ?case
  proof (cases "m = i")
    case True
    with Cons.prems(3) w have c0: "c0 = c" by simp
    have now: "meshes ?s1 ! i = (meshes s ! i)\<lparr>mesh_color := c\<rparr>"
      using True c0 Cons.prems(1) by (simp add: set_mesh_color_def)
    have "meshes (apply_writes ws ?s1) ! i = meshes ?s1 ! i"
      by (rule apply_writes_stable [OF len]) (use fn now in simp)
    with now show ?thesis unfolding w by simp
  next
    case False
    with Cons.prems(2) w have "(i, c) \<in> set ws" by auto
    from Cons.IH [OF len this fn] False show ?thesis
      unfolding w by (simp add: set_mesh_color_def)
  qed
qed

lemma recolor_hemis_writes:
  assumes "\<forall>h \<in> set hs. \<exists>m. v_hemi_meshes v (mesh_key h view) = Some (Some m)"
  shows "recolor_hemis v stc_data view hs s =
    (None, apply_writes (map (\<lambda>h. (mesh_of v h view, hemi_colour v stc_data h)) hs) s)"
  using assms
proof (induction hs arbitrary: s)
  case Nil
  show ?case by simp
next
  case (Cons h hs)
  then obtain m where m: "v_hemi_meshes v (mesh_key h view) = Some (Some m)" by auto
  then have mo: "mesh_of v h view = m" by (simp add: mesh_of_def)
  from Cons have "recolor_hemis v stc_data view hs (set_mesh_color m (hemi_colour v stc_data h) s) =
    (None, apply_writes (map (\<lambda>h. (mesh_of v h view, hemi_colour v stc_data h)) hs)
       (set_mesh_color m (hemi_colour v stc_data h) s))"
    by simp
  then show ?case by (simp add: m mo hemi_colour_def Let_def)
qed

lemma recolor_views_writes:
  assumes "\<forall>view \<in> set views. \<forall>h \<in> set (v_hemis v).
             \<exists>m. v_hemi_meshes v (mesh_key h view) = Some (Some m)"
  shows "recolor_views v stc_data views s = (None, apply_writes (view_writes v stc_data views) s)"
  using assms
proof (induction views arbitrary: s)
  case Nil
  show ?case by (simp add: view_writes_def)
next
  case (Cons view views)
  have h: "recolor_hemis v stc_data view (v_hemis v) s =
      (None, apply_writes (hemi_writes v stc_data view) s)"
    unfolding hemi_writes_def by (rule recolor_hemis_writes) (use Cons.prems in simp)
  have "recolor_views v stc_data views (apply_writes (hemi_writes v stc_data view) s) =
      (None, apply_writes (view_writes v stc_data views) (apply_writes (hemi_writes v stc_data view) s))"
    by (rule Cons.IH) (use Cons.prems in simp)
  then show ?case by (simp add: h view_writes_def apply_writes_append)
qed

lemma view_writes_mem:
  "(i, c) \<in> set (view_writes v stc_data views) \<longleftrightarrow>
   (\<exists>view \<in> set views. \<exists>h \<in> set (v_hemis v). i = mesh_of v h view \<and> c = hemi_colour v stc_data h)"
  by (auto simp: view_writes_def hemi_writes_def)

text \<open>What the two loops do to the scene in a state that satisfies \<open>meshes_ok\<close>.\<close>

lemma recolor_views_ok:
  assumes ok: "meshes_ok v s"
  shows "\<exists>s'. recolor_views v stc_data (v_views v) s = (None, s') \<and>
      figures s' = figures s \<and> current s' = current s \<and> container s' = container s \<and>
      shown s' = shown s \<and> length (meshes s') = length (meshes s) \<and>
      (\<forall>view \<in> set (v_views v). \<forall>h \<in> set (v_hemis v). \<forall>m.
         v_hemi_meshes v (mesh_key h view) = Some (Some m) \<longrightarrow>
         meshes s' ! m = (meshes s ! m)\<lparr>mesh_color := hemi_colour v stc_data h\<rparr>) \<and>
      (\<forall>i < length (meshes s).
         (\<forall>view \<in> set (v_views v). \<forall>h \<in> set (v_hemis v).
            v_hemi_meshes v (mesh_key h view) \<noteq> Some (Some i)) \<longrightarrow>
         meshes s' ! i = meshes s ! i)"
proof -
  let ?ws = "view_writes v stc_data (v_views v)"
  let ?s' = "apply_writes ?ws s"
  from ok have pres: "\<forall>view \<in> set (v_views v). \<forall>h \<in> set (v_hemis v).
        \<exists>m < length (meshes s). v_hemi_meshes v (mesh_key h view) = Some (Some m)"
    and inj: "\<forall>view \<in> set (v_views v). \<forall>view' \<in> set (v_views v).
        \<forall>h \<in> set (v_hemis v). \<forall>h' \<in> set (v_hemis v).
          v_hemi_meshes v (mesh_key h view) = v_hemi_meshes v (mesh_key h' view') \<longrightarrow> h = h'"
    by (simp_all add: meshes_ok_def)
  have r: "recolor_views v stc_data (v_views v) s = (None, ?s')"
    by (rule recolor_views_writes) (use pres in blast)
  have mo: "mesh_of v h view = m \<longleftrightarrow> v_hemi_meshes v (mesh_key h view) = Some (Some m)"
    if "view \<in> set (v_views v)" "h \<in> set (v_hemis v)" for h view m
    using pres that by (fastforce simp: mesh_of_def)
  have written: "meshes ?s' ! m = (meshes s ! m)\<lparr>mesh_color := hemi_colour v stc_data h\<rparr>"
    if vw: "view \<in> set (v_views v)" and h: "h \<in> set (v_hemis v)"
      and m: "v_hemi_meshes v (mesh_key h view) = Some (Some m)" for view h m
  proof (rule apply_writes_written)
    show "m < length (meshes s)" using pres vw h m by fastforce
    have "m = mesh_of v h view" using mo [OF vw h, of m] m by blast
    then show "(m, hemi_colour v stc_data h) \<in> set ?ws"
      unfolding view_writes_mem using vw h by blast
    show "\<forall>c'. (m, c') \<in> set ?ws \<longrightarrow> c' = hemi_colour v stc_data h"
    proof (intro allI impI)
      fix c' assume "(m, c') \<in> set ?ws"
      then obtain view' h' where v': "view' \<in> set (v_views v)" and h': "h' \<in> set (v_hemis v)"
        and e: "m = mesh_of v h' view'" "c' = hemi_colour v stc_data h'"
        unfolding view_writes_mem by blast
      from e(1) mo [OF v' h', of m] have "v_hemi_meshes v (mesh_key h' view') = Some (Some m)" by blast
      with m inj vw v' h h' have "h = h'" by metis
      with e(2) show "c' = hemi_colour v stc_data h" by simp
    qed
  qed
  have untouched: "meshes ?s' ! i = meshes s ! i"
    if i: "i < length (meshes s)"
      and n: "\<forall>view \<in> set (v_views v). \<forall>h \<in> set (v_hemis v).
            v_hemi_meshes v (mesh_key h view) \<noteq> Some (Some i)" for i
  proof (rule apply_writes_stable [OF i])
    show "\<forall>c'. (i, c') \<in> set ?ws \<longrightarrow> c' = mesh_color (meshes s ! i)"
      unfolding view_writes_mem using n mo by blast
  qed
  from r apply_writes_frame [of ?ws s] written untouched show ?thesis by blast
qed


text \<open>
  Claim C6. A move of the time slider recomputes the colour of the mesh of every
  hemisphere in every view, with the colormap and the coefficients \<open>k\<close> and \<open>b\<close> as
  they are, from the morphed data at the new time index, and writes the label. Nothing
  else changes: the variables of the viewer other than the text of the label, the other
  meshes, the other fields of the recoloured meshes, the figures and the widgets of the
  scene. The state of the colorbar and its three inputs is not in the reach of
  \<open>slider_handler\<close>.
\<close>

theorem slider_handler_frame:
  assumes "meshes_ok v s" and "t < length (morphed env)" and "t < length (v_times v)"
    and "v_time_label v \<noteq> TLNone"
  shows "\<exists>s' lbl.
      slider_handler env t v s = (None, v\<lparr>v_label := lbl\<rparr>, s') \<and>
      make_label env (v_time_label v) (v_times v) t = Inr (Some lbl) \<and>
      figures s' = figures s \<and> current s' = current s \<and> container s' = container s \<and>
      shown s' = shown s \<and> length (meshes s') = length (meshes s) \<and>
      (\<forall>view \<in> set (v_views v). \<forall>h \<in> set (v_hemis v). \<forall>m.
         v_hemi_meshes v (mesh_key h view) = Some (Some m) \<longrightarrow>
         meshes s' ! m = (meshes s ! m)\<lparr>mesh_color :=
           act_colors_of (v_cmap v) (v_k v) (v_b v) (hemi_data (v_n_lh v) h (morphed env ! t))\<rparr>) \<and>
      (\<forall>i < length (meshes s).
         (\<forall>view \<in> set (v_views v). \<forall>h \<in> set (v_hemis v).
            v_hemi_meshes v (mesh_key h view) \<noteq> Some (Some i)) \<longrightarrow>
         meshes s' ! i = meshes s ! i)"
proof -
  have d: "stc_data_at env t = Inr (morphed env ! t)"
    using assms(2) by (simp add: stc_data_at_def)
  from assms(3,4) obtain lbl where
    l: "make_label env (v_time_label v) (v_times v) t = Inr (Some lbl)"
    by (cases "v_time_label v") (simp_all add: make_label_def)
  from recolor_views_ok [OF assms(1), of "morphed env ! t"] obtain s' where
    r: "recolor_views v (morphed env ! t) (v_views v) s = (None, s')"
    and k: "figures s' = figures s" "current s' = current s" "container s' = container s"
      "shown s' = shown s" "length (meshes s') = length (meshes s)"
      "\<forall>view \<in> set (v_views v). \<forall>h \<in> set (v_hemis v). \<forall>m.
         v_hemi_meshes v (mesh_key h view) = Some (Some m) \<longrightarrow>
         meshes s' ! m = (meshes s ! m)\<lparr>mesh_color := hemi_colour v (morphed env ! t) h\<rparr>"
      "\<forall>i < length (meshes s).
         (\<forall>view \<in> set (v_views v). \<forall>h \<in> set (v_hemis v).
            v_hemi_meshes v (mesh_key h view) \<noteq> Some (Some i)) \<longrightarrow>
         meshes s' ! i = meshes s ! i"
    by blast
  have "slider_handler env t v s = (None, v\<lparr>v_label := lbl\<rparr>, s')"
    by (simp add: slider_handler_def d r l)
  with l k show ?thesis unfolding hemi_colour_def by blast
qed


lemma ex_meshes_ok: "meshes_ok ex_viewer ex_scene"
  by (simp add: meshes_ok_def ex_viewer_def ex_scene_def mesh_key_def)

theorem slider_handler_frame_witness:
  "meshes_ok ex_viewer ex_scene \<and> 1 < length (morphed ex_env) \<and> 1 < length (v_times ex_viewer) \<and>
   v_time_label ex_viewer \<noteq> TLNone \<and>
   (\<exists>s'. slider_handler ex_env 1 ex_viewer ex_scene = (None, ex_viewer\<lparr>v_label := ''t=100''\<rparr>, s') \<and>
      figures s' = figures ex_scene \<and> container s' = container ex_scene \<and>
      meshes s' ! 0 = meshes ex_scene ! 0 \<and>
      meshes s' ! 1 = (meshes ex_scene ! 1)\<lparr>mesh_color := ColArr [(1 / 2, 1 / 2, 1, 1)]\<rparr> \<and>
      meshes s' ! 2 = meshes ex_scene ! 2 \<and>
      meshes s' ! 3 = (meshes ex_scene ! 3)\<lparr>mesh_color := ColArr [(2, 2, 1, 1)]\<rparr>)"
proof -
  have h: "1 < length (morphed ex_env)" "1 < length (v_times ex_viewer)"
    "v_time_label ex_viewer \<noteq> TLNone"
    by (simp_all add: ex_env_def ex_viewer_def)
  from slider_handler_frame [OF ex_meshes_ok h] obtain s' lbl where
    r: "slider_handler ex_env 1 ex_viewer ex_scene = (None, ex_viewer\<lparr>v_label := lbl\<rparr>, s')"
    and l: "make_label ex_env (v_time_label ex_viewer) (v_times ex_viewer) 1 = Inr (Some lbl)"
    and f: "figures s' = figures ex_scene" "container s' = container ex_scene"
    and w: "\<forall>view \<in> set (v_views ex_viewer). \<forall>h \<in> set (v_hemis ex_viewer). \<forall>m.
         v_hemi_meshes ex_viewer (mesh_key h view) = Some (Some m) \<longrightarrow>
         meshes s' ! m = (meshes ex_scene ! m)\<lparr>mesh_color :=
           act_colors_of (v_cmap ex_viewer) (v_k ex_viewer) (v_b ex_viewer)
             (hemi_data (v_n_lh ex_viewer) h (morphed ex_env ! 1))\<rparr>"
    and u: "\<forall>i < length (meshes ex_scene).
         (\<forall>view \<in> set (v_views ex_viewer). \<forall>h \<in> set (v_hemis ex_viewer).
            v_hemi_meshes ex_viewer (mesh_key h view) \<noteq> Some (Some i)) \<longrightarrow>
         meshes s' ! i = meshes ex_scene ! i"
    by blast
  from l have lbl: "lbl = ''t=100''"
    by (simp add: make_label_def ex_viewer_def ex_env_def)
  from w have w1: "meshes s' ! 1 = (meshes ex_scene ! 1)\<lparr>mesh_color := ColArr [(1 / 2, 1 / 2, 1, 1)]\<rparr>"
    and w3: "meshes s' ! 3 = (meshes ex_scene ! 3)\<lparr>mesh_color := ColArr [(2, 2, 1, 1)]\<rparr>"
    by (simp_all add: ex_viewer_def ex_env_def mesh_key_def act_colors_of_def normalised_def
        affine_def hemi_data_def echo_cmap_def)
  from u have u0: "meshes s' ! 0 = meshes ex_scene ! 0" and u2: "meshes s' ! 2 = meshes ex_scene ! 2"
    by (simp_all add: ex_viewer_def ex_scene_def mesh_key_def)
  from ex_meshes_ok h r lbl f w1 w3 u0 u2 show ?thesis by simp
qed

text \<open>
  Claim C1, at the scale points (1, 2, 3) and the data value 5: the coefficients are
  \<open>k = 1/2\<close> and \<open>b = - 1/2\<close>, the clipped copy is dropped, and the colormap is handed
  the value 2, which is not in the interval from 0 to 1.
\<close>

theorem clipped_copy_dropped:
  "norm_coeffs (1, 2, 3) = (Fin (1 / 2), Fin (- (1 / 2))) \<and>
   normalised (Fin (1 / 2)) (Fin (- (1 / 2))) [5] = [Fin 2] \<and>
   \<not> in_unit_interval (Fin 2) \<and>
   np_clip_float [Fin 2] 0 1 = [Fin 1] \<and>
   act_colors_of (echo_cmap (1, 2, 3)) (Fin (1 / 2)) (Fin (- (1 / 2))) [5] = ColArr [(2, 2, 1, 1)]"
  by (simp add: norm_coeffs_def np_div_def normalised_def affine_def np_clip_float_def
      act_colors_of_def echo_cmap_def Let_def)

text \<open>
  Claim C5. A click on the update button with values that do not satisfy
  \<open>fmin < fmid < fmax\<close> raises and changes nothing: the viewer (with \<open>cmap\<close>, \<open>k\<close> and
  \<open>b\<close>), the colorbar and the scene (with every mesh colour) are as before. The
  exception is \<^verbatim>\<open>ValueError\<close> whenever the slider stands at a time index of the data.
\<close>

theorem on_update_rejects:
  assumes "\<not> (cb_fmin cb < cb_fmid cb \<and> cb_fmid cb < cb_fmax cb)"
  shows "(\<exists>e. on_update env v cb s = (Some e, v, cb, s)) \<and>
         (v_slider v < length (morphed env) \<longrightarrow> on_update env v cb s = (Some ValueError, v, cb, s))"
  using assms by (auto simp: on_update_def stc_data_at_def Let_def)

theorem on_update_rejects_witness:
  "\<not> (cb_fmin (ex_cbar\<lparr>cb_fmin := 3\<rparr>) < cb_fmid (ex_cbar\<lparr>cb_fmin := 3\<rparr>) \<and>
      cb_fmid (ex_cbar\<lparr>cb_fmin := 3\<rparr>) < cb_fmax (ex_cbar\<lparr>cb_fmin := 3\<rparr>)) \<and>
   v_slider ex_viewer < length (morphed ex_env) \<and>
   on_update ex_env ex_viewer (ex_cbar\<lparr>cb_fmin := 3\<rparr>) ex_scene =
     (Some ValueError, ex_viewer, ex_cbar\<lparr>cb_fmin := 3\<rparr>, ex_scene)"
  using on_update_rejects [of "ex_cbar\<lparr>cb_fmin := 3\<rparr>" ex_env ex_viewer ex_scene]
  by (simp add: ex_cbar_def ex_viewer_def ex_env_def)


text \<open>
  What \<open>on_update\<close> does with accepted values when \<^verbatim>\<open>dt_max\<close> differs from
  \<^verbatim>\<open>dt_min\<close>, which holds for a colormap given by name and, for the 'mne' colormap,
  when \<open>fmax\<close> is not 0: the new colormap is built from the entered control points, the
  new coefficients send \<^verbatim>\<open>dt_min\<close> to 0 and \<^verbatim>\<open>dt_max\<close> to 1, every mesh is recoloured
  from the data at the time index of the slider, and the heat map of the colorbar is
  replaced.
\<close>

lemma on_update_accepts:
  assumes valid: "cb_fmin cb < cb_fmid cb" "cb_fmid cb < cb_fmax cb"
    and ok: "meshes_ok v s" and sl: "v_slider v < length (morphed env)"
    and nz: "\<forall>tab. v_lim_cmap v = CmapObj tab \<longrightarrow> cb_fmax cb \<noteq> 0"
  shows "(let ctrl_pts = (cb_fmin cb, cb_fmid cb, cb_fmax cb);
              (scale_pts, dt_min, dt_max) =
                 (case v_lim_cmap v of
                    CmapStr name \<Rightarrow> (ctrl_pts, cb_fmin cb, cb_fmax cb)
                  | CmapObj tab \<Rightarrow> ((- cb_fmax cb, 0, cb_fmax cb), - cb_fmax cb, cb_fmax cb));
              k = 1 / (dt_max - dt_min);
              v' = v\<lparr>v_cmap := calculate_cmap env (v_lim_cmap v) (v_alpha v) ctrl_pts scale_pts,
                     v_k := Fin k, v_b := Fin (1 - k * dt_max)\<rparr>
          in affine (v_k v') (v_b v') dt_min = Fin 0 \<and> affine (v_k v') (v_b v') dt_max = Fin 1 \<and>
             (\<exists>s'. on_update env v cb s =
                     (None, v', cb\<lparr>cb_marks := [make_heat (v_cmap v') (cb_data cb) (cb_ticks cb)]\<rparr>, s') \<and>
                figures s' = figures s \<and> container s' = container s \<and>
                length (meshes s') = length (meshes s) \<and>
                (\<forall>view \<in> set (v_views v). \<forall>h \<in> set (v_hemis v). \<forall>m.
                   v_hemi_meshes v (mesh_key h view) = Some (Some m) \<longrightarrow>
                   meshes s' ! m = (meshes s ! m)\<lparr>mesh_color :=
                     act_colors_of (v_cmap v') (v_k v') (v_b v')
                       (hemi_data (v_n_lh v) h (morphed env ! v_slider v))\<rparr>)))"
proof -
  define ctrl_pts where "ctrl_pts = (cb_fmin cb, cb_fmid cb, cb_fmax cb)"
  define sdd where "sdd = (case v_lim_cmap v of
                    CmapStr name \<Rightarrow> (ctrl_pts, cb_fmin cb, cb_fmax cb)
                  | CmapObj tab \<Rightarrow> ((- cb_fmax cb, 0, cb_fmax cb), - cb_fmax cb, cb_fmax cb))"
  obtain scale_pts dt_min dt_max where sdd_eq: "sdd = (scale_pts, dt_min, dt_max)"
    by (cases sdd) auto
  define k where "k = 1 / (dt_max - dt_min)"
  define v' where "v' = v\<lparr>v_cmap := calculate_cmap env (v_lim_cmap v) (v_alpha v) ctrl_pts scale_pts,
                     v_k := Fin k, v_b := Fin (1 - k * dt_max)\<rparr>"
  have ne: "dt_max - dt_min \<noteq> 0"
    using sdd_eq valid nz unfolding sdd_def by (cases "v_lim_cmap v") auto
  have a0: "affine (v_k v') (v_b v') dt_min = Fin 0"
    using ne by (simp add: v'_def affine_def k_def field_simps)
  have a1: "affine (v_k v') (v_b v') dt_max = Fin 1"
    by (simp add: v'_def affine_def)
  have ok': "meshes_ok v' s" using ok by (simp add: meshes_ok_def v'_def)
  from recolor_views_ok [OF ok', of "morphed env ! v_slider v"] obtain s' where
    r: "recolor_views v' (morphed env ! v_slider v) (v_views v') s = (None, s')"
    and f: "figures s' = figures s" "container s' = container s" "length (meshes s') = length (meshes s)"
    and w: "\<forall>view \<in> set (v_views v'). \<forall>h \<in> set (v_hemis v'). \<forall>m.
         v_hemi_meshes v' (mesh_key h view) = Some (Some m) \<longrightarrow>
         meshes s' ! m = (meshes s ! m)\<lparr>mesh_color := hemi_colour v' (morphed env ! v_slider v) h\<rparr>"
    by blast
  have same: "v_views v' = v_views v" "v_hemis v' = v_hemis v" "v_hemi_meshes v' = v_hemi_meshes v"
    "v_n_lh v' = v_n_lh v"
    by (simp_all add: v'_def)
  have pd: "py_div 1 (dt_max - dt_min) = Inr k"
    using ne by (simp add: py_div_def k_def)
  have sdd': "(case v_lim_cmap v of
                    CmapStr name \<Rightarrow> ((cb_fmin cb, cb_fmid cb, cb_fmax cb), cb_fmin cb, cb_fmax cb)
                  | CmapObj tab \<Rightarrow> ((- cb_fmax cb, 0, cb_fmax cb), - cb_fmax cb, cb_fmax cb)) =
              (scale_pts, dt_min, dt_max)"
    using sdd_eq unfolding sdd_def ctrl_pts_def .
  have sdd'': "(case v_lim_cmap v of
                    CmapStr name \<Rightarrow> ((cb_fmin cb, cb_fmid cb, cb_fmax cb), cb_fmin cb, cb_fmax cb)
                  | CmapObj tab \<Rightarrow>
                      ((- pt_last (cb_fmin cb, cb_fmid cb, cb_fmax cb), 0,
                        pt_last (cb_fmin cb, cb_fmid cb, cb_fmax cb)), - cb_fmax cb, cb_fmax cb)) =
              (scale_pts, dt_min, dt_max)"
    using sdd' by (cases "v_lim_cmap v") auto
  have v'_eq: "v\<lparr>v_cmap := calculate_cmap env (v_lim_cmap v) (v_alpha v)
                        (cb_fmin cb, cb_fmid cb, cb_fmax cb) scale_pts,
             v_k := Fin k, v_b := Fin (1 - k * dt_max)\<rparr> = v'"
    by (simp add: v'_def ctrl_pts_def)
  have res: "on_update env v cb s =
      (None, v', cb\<lparr>cb_marks := [make_heat (v_cmap v') (cb_data cb) (cb_ticks cb)]\<rparr>, s')"
    using valid sl r
    by (simp add: on_update_def stc_data_at_def Let_def sdd'' pd v'_eq same)
  have w': "\<forall>view \<in> set (v_views v). \<forall>h \<in> set (v_hemis v). \<forall>m.
         v_hemi_meshes v (mesh_key h view) = Some (Some m) \<longrightarrow>
         meshes s' ! m = (meshes s ! m)\<lparr>mesh_color :=
            act_colors_of (v_cmap v') (v_k v') (v_b v')
              (hemi_data (v_n_lh v) h (morphed env ! v_slider v))\<rparr>"
    using w unfolding same hemi_colour_def .
  show ?thesis
    unfolding Let_def ctrl_pts_def [symmetric] sdd_def [symmetric] sdd_eq prod.case
      k_def [symmetric] v'_def [symmetric]
    using a0 a1 res f w' by blast
qed

text \<open>
  Claim C7, at the 'mne' colormap and the entered values -2, -1 and 0: the values pass the
  check of line 629, \<^verbatim>\<open>dt_min\<close> and \<^verbatim>\<open>dt_max\<close> are both 0, and line 649 raises
  \<^verbatim>\<open>ZeroDivisionError\<close> after line 648 has replaced the colormap; the coefficients and
  the meshes keep their values.
\<close>

theorem on_update_zero_division:
  "cb_fmin (ex_cbar\<lparr>cb_fmin := - 2, cb_fmid := - 1, cb_fmax := 0\<rparr>)
     < cb_fmid (ex_cbar\<lparr>cb_fmin := - 2, cb_fmid := - 1, cb_fmax := 0\<rparr>) \<and>
   cb_fmid (ex_cbar\<lparr>cb_fmin := - 2, cb_fmid := - 1, cb_fmax := 0\<rparr>)
     < cb_fmax (ex_cbar\<lparr>cb_fmin := - 2, cb_fmid := - 1, cb_fmax := 0\<rparr>) \<and>
   v_slider (ex_viewer\<lparr>v_lim_cmap := CmapObj []\<rparr>) < length (morphed ex_env) \<and>
   on_update ex_env (ex_viewer\<lparr>v_lim_cmap := CmapObj []\<rparr>)
       (ex_cbar\<lparr>cb_fmin := - 2, cb_fmid := - 1, cb_fmax := 0\<rparr>) ex_scene =
     (Some ZeroDivisionError,
      ex_viewer\<lparr>v_lim_cmap := CmapObj [], v_cmap := echo_cmap (- 2, - 1, 0)\<rparr>,
      ex_cbar\<lparr>cb_fmin := - 2, cb_fmid := - 1, cb_fmax := 0\<rparr>, ex_scene)"
  by (simp add: on_update_def stc_data_at_def py_div_def Let_def ex_cbar_def ex_viewer_def
      ex_env_def)


lemma on_update_accepts_example:
  "(case on_update ex_env ex_viewer (ex_cbar\<lparr>cb_fmax := 5\<rparr>) ex_scene of
      (e, v, cb, s') \<Rightarrow>
        e = None \<and> v_cmap v = echo_cmap (1, 2, 5) \<and> v_k v = Fin (1 / 4) \<and> v_b v = Fin (- (1 / 4)) \<and>
        mesh_color (meshes s' ! 1) = ColArr [(0, 0, 1, 1)] \<and>
        mesh_color (meshes s' ! 3) = ColArr [(1 / 2, 1 / 2, 1, 1)])"
  by (simp add: on_update_def stc_data_at_def py_div_def Let_def ex_cbar_def ex_viewer_def
      ex_env_def ex_scene_def mesh_key_def act_colors_of_def normalised_def affine_def
      hemi_data_def echo_cmap_def set_mesh_color_def)

section \<open>The set-up builds the state of the handlers\<close>

lemma meshes_new_figure: "new_figure p s = (fig, s') \<Longrightarrow> meshes s' = meshes s"
  by (auto simp: new_figure_def ipv_figure_def set_animation_def Let_def)

lemma hm_inv_update:
  assumes "hm_inv hm s" and "length (meshes s') = length (meshes s) + 2"
  shows "hm_inv (hm(k \<mapsto> Some (Suc (length (meshes s))))) s'"
proof -
  from assms(1) have old: "\<And>k mo. hm k = Some mo \<Longrightarrow> \<exists>m < length (meshes s). mo = Some m"
    and inj: "inj_on hm (dom hm)"
    by (auto simp: hm_inv_def)
  let ?hm = "hm(k \<mapsto> Some (Suc (length (meshes s))))"
  have "\<exists>m < length (meshes s'). mo = Some m" if "?hm k' = Some mo" for k' mo
    using that old [of k' mo] assms(2) by (cases "k' = k") auto
  moreover have "inj_on ?hm (dom ?hm)"
  proof (rule inj_onI)
    fix x y assume x: "x \<in> dom ?hm" and y: "y \<in> dom ?hm" and e: "?hm x = ?hm y"
    show "x = y"
    proof (cases "x = k"; cases "y = k")
      assume "x \<noteq> k" "y \<noteq> k"
      with x y e inj show ?thesis by (auto dest: inj_onD)
    next
      assume "x = k" "y \<noteq> k"
      with e have "hm y = Some (Some (Suc (length (meshes s))))" by simp
      with old [of y] show ?thesis by auto
    next
      assume "x \<noteq> k" "y = k"
      with e have "hm x = Some (Some (Suc (length (meshes s))))" by simp
      with old [of x] show ?thesis by auto
    qed simp
  qed
  ultimately show ?thesis by (auto simp: hm_inv_def)
qed

lemma hm_inv_mono:
  assumes "hm_inv hm s" and "length (meshes s) \<le> length (meshes s')"
  shows "hm_inv hm s'"
  using assms by (fastforce simp: hm_inv_def)

lemma hemi_step_inv:
  assumes "hemi_step env a p view h ls = Inr ls'"
    and "hm_inv (ls_hemi_meshes ls) (ls_scene ls)"
  shows "hm_inv (ls_hemi_meshes ls') (ls_scene ls') \<and>
         length (meshes (ls_scene ls)) \<le> length (meshes (ls_scene ls')) \<and>
         dom (ls_hemi_meshes ls) \<subseteq> dom (ls_hemi_meshes ls') \<and>
         (drawn p h \<longrightarrow> mesh_key h view \<in> dom (ls_hemi_meshes ls'))"
proof (cases "drawn p h")
  case False
  then have "hemi_step env a p view h ls = Inr ls"
    by (auto simp: hemi_step_def drawn_def Let_def split: option.splits)
  with assms False show ?thesis by simp
next
  case True
  then obtain vs fs where vf: "p_hemi_vertices p h = Some vs" "p_hemi_faces p h = Some fs"
    and d: "0 < length (hemi_data (p_n_lh p) h (p_stc_data p))"
    by (auto simp: drawn_def)
  let ?act = "act_colors_of (p_cmap p) (p_k p) (p_b p) (hemi_data (p_n_lh p) h (p_stc_data p))"
  define ls1 where "ls1 = (if a_hemi a = ''split'' then
                            let (fig, s) = new_figure p (ls_scene ls)
                            in ls\<lparr>ls_scene := s, ls_fig := Some fig,
                                  ls_figs_row := Some (case ls_figs_row ls of
                                                         None \<Rightarrow> [fig]
                                                       | Some row \<Rightarrow> row @ [fig])\<rparr>
                          else ls)"
  have m1: "meshes (ls_scene ls1) = meshes (ls_scene ls)" and h1: "ls_hemi_meshes ls1 = ls_hemi_meshes ls"
    by (auto simp: ls1_def Let_def split: prod.splits dest: meshes_new_figure)
  obtain mw hm s1 where ph: "plot_hemisphere_mesh (offset_hemi0 env vs h) fs (read_morph env h)
      (Some ?act) (ls_scene ls1) = ((mw, hm), s1)"
    by (metis surj_pair)
  note o = plot_hemisphere_mesh_overlay [OF ph]
  from assms(1) obtain elev azim where
    ls': "ls' = ls1\<lparr>ls_scene := style_view (a_background a) azim elev s1,
              ls_hemi_meshes := (ls_hemi_meshes ls1)(mesh_key h view \<mapsto> hm)\<rparr>"
    using d vf ph
    by (auto simp: hemi_step_def Let_def ls1_def [symmetric] split: option.splits)
  have hm: "hm = Some (Suc (length (meshes (ls_scene ls))))" using o m1 by simp
  have len: "length (meshes (ls_scene ls')) = length (meshes (ls_scene ls)) + 2"
    using o m1 by (simp add: ls')
  have "hm_inv (ls_hemi_meshes ls') (ls_scene ls')"
    unfolding ls' using hm_inv_update [OF assms(2), of "ls_scene ls'" "mesh_key h view"] len
    by (simp add: ls' h1 hm)
  with len show ?thesis by (auto simp: ls' h1)
qed

lemma hemis_loop_inv:
  assumes "hemis_loop env a p view hs ls = Inr ls'"
    and "hm_inv (ls_hemi_meshes ls) (ls_scene ls)"
  shows "hm_inv (ls_hemi_meshes ls') (ls_scene ls') \<and>
         length (meshes (ls_scene ls)) \<le> length (meshes (ls_scene ls')) \<and>
         dom (ls_hemi_meshes ls) \<subseteq> dom (ls_hemi_meshes ls') \<and>
         (\<forall>h \<in> set hs. drawn p h \<longrightarrow> mesh_key h view \<in> dom (ls_hemi_meshes ls'))"
  using assms
proof (induction hs arbitrary: ls)
  case Nil
  then show ?case by simp
next
  case (Cons h hs)
  from Cons.prems(1) obtain ls1 where s1: "hemi_step env a p view h ls = Inr ls1"
    and r: "hemis_loop env a p view hs ls1 = Inr ls'"
    by (auto split: sum.splits)
  note i1 = hemi_step_inv [OF s1 Cons.prems(2)]
  from i1 have inv1: "hm_inv (ls_hemi_meshes ls1) (ls_scene ls1)" by simp
  note i2 = Cons.IH [OF r inv1]
  from i1 i2 show ?case by auto
qed

lemma view_step_inv:
  assumes "view_step env a p view ls = Inr ls'"
    and "hm_inv (ls_hemi_meshes ls) (ls_scene ls)"
  shows "hm_inv (ls_hemi_meshes ls') (ls_scene ls') \<and>
         length (meshes (ls_scene ls)) \<le> length (meshes (ls_scene ls')) \<and>
         dom (ls_hemi_meshes ls) \<subseteq> dom (ls_hemi_meshes ls') \<and>
         (\<forall>h \<in> set (p_hemis p). drawn p h \<longrightarrow> mesh_key h view \<in> dom (ls_hemi_meshes ls'))"
proof -
  define ls0 where "ls0 = (let ls = ls\<lparr>ls_figs_row := None\<rparr> in
                if a_hemi a \<noteq> ''split'' then
                  let (fig, s) = new_figure p (ls_scene ls)
                  in ls\<lparr>ls_scene := s, ls_fig := Some fig\<rparr>
                else ls)"
  have m0: "meshes (ls_scene ls0) = meshes (ls_scene ls)" and h0: "ls_hemi_meshes ls0 = ls_hemi_meshes ls"
    by (auto simp: ls0_def Let_def split: prod.splits dest: meshes_new_figure)
  from assms(1) obtain ls1 where l: "hemis_loop env a p view (p_hemis p) ls0 = Inr ls1"
    and e: "ls_scene ls' = ls_scene ls1" "ls_hemi_meshes ls' = ls_hemi_meshes ls1"
    by (auto simp: view_step_def ls0_def Let_def split: sum.splits option.splits)
  have inv0: "hm_inv (ls_hemi_meshes ls0) (ls_scene ls0)"
    using assms(2) hm_inv_mono [of "ls_hemi_meshes ls" "ls_scene ls" "ls_scene ls0"] by (simp add: h0 m0)
  from hemis_loop_inv [OF l inv0] show ?thesis by (simp add: e h0 m0)
qed

lemma views_loop_inv:
  assumes "views_loop env a p views ls = Inr ls'"
    and "hm_inv (ls_hemi_meshes ls) (ls_scene ls)"
  shows "hm_inv (ls_hemi_meshes ls') (ls_scene ls') \<and>
         dom (ls_hemi_meshes ls) \<subseteq> dom (ls_hemi_meshes ls') \<and>
         (\<forall>view \<in> set views. \<forall>h \<in> set (p_hemis p).
            drawn p h \<longrightarrow> mesh_key h view \<in> dom (ls_hemi_meshes ls'))"
  using assms
proof (induction views arbitrary: ls)
  case Nil
  then show ?case by simp
next
  case (Cons view views)
  from Cons.prems(1) obtain ls1 where s1: "view_step env a p view ls = Inr ls1"
    and r: "views_loop env a p views ls1 = Inr ls'"
    by (auto split: sum.splits)
  note i1 = view_step_inv [OF s1 Cons.prems(2)]
  from i1 have inv1: "hm_inv (ls_hemi_meshes ls1) (ls_scene ls1)" by simp
  note i2 = Cons.IH [OF r inv1]
  from i1 i2 show ?case by (auto 4 3)
qed


lemma meshes_gcf: "gcf s = (fig, s') \<Longrightarrow> meshes s' = meshes s"
  by (auto simp: gcf_def ipv_figure_def Let_def split: option.splits)

lemma meshes_set_children [simp]: "meshes (set_children ws s) = meshes s"
  by (auto simp: set_children_def split: prod.splits dest: meshes_gcf)

lemma meshes_add_children [simp]: "meshes (add_children ws s) = meshes s"
  by (auto simp: add_children_def split: prod.splits dest: meshes_gcf)

lemma pse_children_meshes: "pse_children a fg title figs s = Inr s' \<Longrightarrow> meshes s' = meshes s"
  by (auto simp: pse_children_def Let_def split: sum.splits)

lemma pse_controls_viewer:
  assumes "pse_controls env a p views hm s = Inr (s', Some v, cb)"
  shows "meshes s' = meshes s \<and> v_views v = views \<and> v_hemis v = p_hemis p \<and>
         v_hemi_meshes v = hm \<and> v_cmap v = p_cmap p \<and> v_k v = p_k p \<and> v_b v = p_b p \<and>
         v_slider v = p_time_idx p \<and> v_time_label v = p_time_label p \<and> v_times v = p_times p \<and>
         v_time_label v \<noteq> TLNone"
  using assms
  by (auto simp: pse_controls_def animation_control_def make_label_def Let_def
      split: if_splits sum.splits option.splits time_label.splits)

lemma prepare_hemis:
  assumes "pse_prepare env a subject = Inr p"
  shows "p_hemis p = (if a_hemi a \<in> {''both'', ''split''} then [''lh'', ''rh''] else [a_hemi a])"
  using assms
  by (auto simp: pse_prepare_def Let_def split: sum.splits option.splits prod.splits)

lemma mesh_key_hemi:
  assumes "mesh_key h view = mesh_key h' view'" and "h \<in> {''lh'', ''rh''}" and "h' \<in> {''lh'', ''rh''}"
  shows "h = h'"
  using assms by (auto simp: mesh_key_def)

text \<open>
  When every requested hemisphere is drawn, the state that \<^verbatim>\<open>plot_source_estimates\<close>
  leaves to the handlers satisfies \<open>meshes_ok\<close>, the label is bound, and the slider
  stands at the initial time index.
\<close>

lemma setup_meshes_ok:
  assumes run: "plot_source_estimates env a s = (Inr figs, s', Some v, cb)"
    and subj: "check_subject env = Inr subject"
    and prep: "pse_prepare env a subject = Inr p"
    and dr: "\<forall>h \<in> set (p_hemis p). drawn p h"
  shows "meshes_ok v s' \<and> v_time_label v \<noteq> TLNone \<and> v_slider v = p_time_idx p \<and>
         v_cmap v = p_cmap p \<and> v_k v = p_k p \<and> v_b v = p_b p"
proof -
  from run obtain views subjects_dir subject' foreground
    where val: "pse_validate env a = Inr (views, subjects_dir, subject', foreground)"
    by (cases "pse_validate env a") (auto simp: plot_source_estimates_def)
  note vf = pse_validate_Inr [OF val]
  from vf subj have s_eq: "subject' = subject" by simp
  let ?init = "\<lparr>ls_scene = s, ls_fig = None, ls_figs_row = None,
                 ls_hemi_meshes = Map.empty, ls_figs = []\<rparr>"
  from run val prep s_eq obtain ls where l: "views_loop env a p views ?init = Inr ls"
    by (cases "views_loop env a p views ?init") (auto simp: plot_source_estimates_def)
  from run val prep s_eq l obtain s1 where
    c: "pse_children a foreground (p_title p) (ls_figs ls) (ls_scene ls) = Inr s1"
    by (cases "pse_children a foreground (p_title p) (ls_figs ls) (ls_scene ls)")
       (auto simp: plot_source_estimates_def)
  from run val prep s_eq l c obtain s2 where
    k: "pse_controls env a p views (ls_hemi_meshes ls) s1 = Inr (s2, Some v, cb)"
    and s': "s' = ipv_show s2"
    by (cases "pse_controls env a p views (ls_hemi_meshes ls) s1")
       (auto simp: plot_source_estimates_def)
  note pv = pse_controls_viewer [OF k]
  have m: "meshes s' = meshes (ls_scene ls)"
    using pv pse_children_meshes [OF c] by (simp add: s')
  have "hm_inv Map.empty s" by (simp add: hm_inv_def)
  then have "hm_inv (ls_hemi_meshes ?init) (ls_scene ?init)" by simp
  from views_loop_inv [OF l this]
  have inv: "hm_inv (ls_hemi_meshes ls) (ls_scene ls)"
    and pres: "\<forall>view \<in> set views. \<forall>h \<in> set (p_hemis p).
            drawn p h \<longrightarrow> mesh_key h view \<in> dom (ls_hemi_meshes ls)"
    by simp_all
  from inv have old: "\<And>k mo. ls_hemi_meshes ls k = Some mo \<Longrightarrow> \<exists>m < length (meshes s'). mo = Some m"
    and inj: "inj_on (ls_hemi_meshes ls) (dom (ls_hemi_meshes ls))"
    by (auto simp: hm_inv_def m)
  have hs: "set (p_hemis p) \<subseteq> {''lh'', ''rh''}"
    using vf by (auto simp: prepare_hemis [OF prep])
  have present: "\<exists>m < length (meshes s'). ls_hemi_meshes ls (mesh_key h view) = Some (Some m)"
    if "view \<in> set views" "h \<in> set (p_hemis p)" for view h
  proof -
    from pres dr that obtain mo where "ls_hemi_meshes ls (mesh_key h view) = Some mo" by blast
    with old [OF this] show ?thesis by auto
  qed
  have distinct: "h = h'"
    if "view \<in> set views" "view' \<in> set views" "h \<in> set (p_hemis p)" "h' \<in> set (p_hemis p)"
      "ls_hemi_meshes ls (mesh_key h view) = ls_hemi_meshes ls (mesh_key h' view')"
    for view view' h h'
  proof -
    from present [OF that(1,3)] present [OF that(2,4)]
    have "mesh_key h view \<in> dom (ls_hemi_meshes ls)" "mesh_key h' view' \<in> dom (ls_hemi_meshes ls)"
      by auto
    with inj that(5) have "mesh_key h view = mesh_key h' view'" by (auto dest: inj_onD)
    with hs that(3,4) show ?thesis by (auto dest: mesh_key_hemi)
  qed
  have "meshes_ok v s'"
    unfolding meshes_ok_def using pv present distinct by auto
  with pv show ?thesis by blast
qed


text \<open>
  The concrete state of the examples is the one that the set-up builds from \<open>ex_env\<close>
  and \<open>ex_args\<close>: the same result, scene and colorbar, and a viewer that agrees with
  \<open>ex_viewer\<close> (its two functions are compared at the keys and at sample scalars).
\<close>

lemma plot_source_estimates_example:
  "(case plot_source_estimates ex_env ex_args empty_scene of
      (r, s, v, cb) \<Rightarrow>
        r = Inr [OneFig 0] \<and> s = ex_scene \<and> cb = Some ex_cbar \<and>
        map_option (\<lambda>v. (v_k v, v_b v, v_label v, v_slider v, v_views v, v_hemis v, v_n_lh v,
                          v_times v, v_lim_cmap v, v_alpha v,
                          (case v_time_label v of TLStr fmt \<Rightarrow> Some fmt | _ \<Rightarrow> None),
                          map (v_hemi_meshes v) [''lh_lat'', ''rh_lat'', ''lh_med''],
                          cm_N (v_cmap v),
                          map (cm_call (v_cmap v)) [Fin 0, Fin (1 / 2), Fin 2, NonFin])) v =
        map_option (\<lambda>v. (v_k v, v_b v, v_label v, v_slider v, v_views v, v_hemis v, v_n_lh v,
                          v_times v, v_lim_cmap v, v_alpha v,
                          (case v_time_label v of TLStr fmt \<Rightarrow> Some fmt | _ \<Rightarrow> None),
                          map (v_hemi_meshes v) [''lh_lat'', ''rh_lat'', ''lh_med''],
                          cm_N (v_cmap v),
                          map (cm_call (v_cmap v)) [Fin 0, Fin (1 / 2), Fin 2, NonFin]))
          (Some ex_viewer))"
  by code_simp

section \<open>The figures show the views in their order\<close>

lemma gcf_figures:
  assumes "gcf s = (fig, s')"
  shows "current s' = Some fig \<and> fig < length (figures s') \<or> (current s = Some fig \<and> s' = s)"
    and "length (figures s) \<le> length (figures s')"
    and "j < length (figures s) \<Longrightarrow> figures s' ! j = figures s ! j"
  using assms by (auto simp: gcf_def ipv_figure_def Let_def nth_append split: option.splits)

lemma update_current_length: "length (figures s) \<le> length (figures (update_current upd s))"
proof -
  obtain fig s1 where g: "gcf s = (fig, s1)" by (metis surj_pair)
  from gcf_figures(2) [OF g] show ?thesis by (simp add: update_current_def g)
qed

lemma update_current_views:
  assumes "\<And>f. fig_view (upd f) = fig_view f" and "j < length (figures s)"
  shows "fig_view (figures (update_current upd s) ! j) = fig_view (figures s ! j)"
proof -
  obtain fig s1 where g: "gcf s = (fig, s1)" by (metis surj_pair)
  note gf = gcf_figures(2,3) [OF g]
  have u: "update_current upd s = s1\<lparr>figures := (figures s1)[fig := upd (figures s1 ! fig)]\<rparr>"
    by (simp add: update_current_def g)
  have j1: "j < length (figures s1)" using assms(2) gf(1) by simp
  show "fig_view (figures (update_current upd s) ! j) = fig_view (figures s ! j)"
    using gf(2) [OF assms(2)] j1 assms(1) by (cases "j = fig") (simp_all add: u)
qed

lemma views_kept_refl: "views_kept s s"
  by (simp add: views_kept_def)

lemma views_kept_trans: "views_kept s s1 \<Longrightarrow> views_kept s1 s2 \<Longrightarrow> views_kept s s2"
  by (auto simp: views_kept_def)

lemma views_kept_update_current:
  "(\<And>f. fig_view (upd f) = fig_view f) \<Longrightarrow> views_kept s (update_current upd s)"
  using update_current_views [of upd _ s] update_current_length [of s upd] by (simp add: views_kept_def)

lemma views_kept_set_children: "views_kept s (set_children ws s)"
proof -
  obtain fig s1 where g: "gcf s = (fig, s1)" by (metis surj_pair)
  from gcf_figures(2,3) [OF g] show ?thesis
    by (simp add: views_kept_def set_children_def g)
qed

lemma views_kept_add_children: "views_kept s (add_children ws s)"
proof -
  obtain fig s1 where g: "gcf s = (fig, s1)" by (metis surj_pair)
  from gcf_figures(2,3) [OF g] show ?thesis
    by (simp add: views_kept_def add_children_def g)
qed

lemma views_kept_children:
  "pse_children a fg title figs s = Inr s' \<Longrightarrow> views_kept s s'"
  by (auto simp: pse_children_def Let_def views_kept_set_children split: sum.splits)

lemma views_kept_controls:
  assumes "pse_controls env a p views hm s = Inr (s', v, cb)"
  shows "views_kept s s'"
proof (cases "a_time_viewer a")
  case False
  with assms show ?thesis by (simp add: pse_controls_def views_kept_refl)
next
  case True
  let ?s1 = "update_current (\<lambda>f. f\<lparr>fig_animation := 500\<rparr>) s"
  have k1: "views_kept s ?s1" by (rule views_kept_update_current) simp
  from assms True have "s' = add_children (case cb of None \<Rightarrow> [HBox ([Play (length (stc_times env)) 500,
        Slider (length (stc_times env))] @ [Label])] | Some c \<Rightarrow> [VBox [HBox ([Play (length (stc_times env)) 500,
        Slider (length (stc_times env))] @ [Label]), CbarFigure, BoundedFloatText ''Fmin:'',
                                             BoundedFloatText ''Fmid:'', BoundedFloatText ''Fmax:'',
                                             Button ''Update mesh'']]) ?s1"
    by (auto simp: pse_controls_def animation_control_def Let_def split: sum.splits option.splits if_splits)
  then have "views_kept ?s1 s'" by (simp add: views_kept_add_children)
  with k1 show ?thesis by (rule views_kept_trans)
qed

lemma views_kept_show: "views_kept s (ipv_show s)"
  by (simp add: views_kept_def ipv_show_def)


lemma plot_trisurf_figures:
  assumes "current s = Some f" and "plot_trisurf x y z t c s = (m, s')"
    and "f < length (figures s)"
  shows "current s' = Some f \<and> length (figures s') = length (figures s) \<and>
         (\<forall>j. j \<noteq> f \<longrightarrow> figures s' ! j = figures s ! j) \<and>
         fig_view (figures s' ! f) = fig_view (figures s ! f)"
  using assms by (auto simp: plot_trisurf_def Let_def update_current_Some)

lemma set_material_figures: "figures (set_material m s) = figures s \<and> current (set_material m s) = current s"
  by (simp add: set_material_def)

lemma plot_hemisphere_mesh_figures:
  assumes "current s = Some f" and "plot_hemisphere_mesh vs fs c act s = (r, s')"
    and "f < length (figures s)"
  shows "current s' = Some f \<and> length (figures s') = length (figures s) \<and>
         (\<forall>j. j \<noteq> f \<longrightarrow> figures s' ! j = figures s ! j) \<and>
         fig_view (figures s' ! f) = fig_view (figures s ! f)"
proof -
  let ?x = "map (\<lambda>(x, y, z). x) vs" and ?y = "map (\<lambda>(x, y, z). y) vs" and ?z = "map (\<lambda>(x, y, z). z) vs"
  obtain m s1 where t1: "plot_trisurf ?x ?y ?z fs c s = (m, s1)" by (metis surj_pair)
  note f1 = plot_trisurf_figures [OF assms(1) t1 assms(3)]
  show ?thesis
  proof (cases act)
    case None
    with assms(2) t1 f1 show ?thesis by (simp add: plot_hemisphere_mesh_def Let_def)
  next
    case (Some ac)
    obtain m2 s2 where t2: "plot_trisurf ?x ?y ?z fs ac s1 = (m2, s2)" by (metis surj_pair)
    from f1 assms(3) have "current s1 = Some f" "f < length (figures s1)" by simp_all
    note f2 = plot_trisurf_figures [OF this(1) t2 this(2)]
    from assms(2) t1 t2 Some have "s' = set_material m2 s2"
      by (simp add: plot_hemisphere_mesh_def Let_def)
    with f1 f2 show ?thesis by (simp add: set_material_figures)
  qed
qed

lemma style_view_figures:
  assumes "current s = Some f" and "f < length (figures s)"
  shows "(\<forall>j. j \<noteq> f \<longrightarrow> figures (style_view bg az el s) ! j = figures s ! j) \<and>
         fig_view (figures (style_view bg az el s) ! f) = Some (az, el)"
  using assms
  by (simp add: style_view_def style_off_def ipv_view_def squarelim_def update_current_Some)

lemma hemi_step_camera:
  assumes ns: "a_hemi a \<noteq> ''split''" and cur: "current (ls_scene ls) = Some f"
    and f: "f < length (figures (ls_scene ls))"
    and vd: "views_dict view = Some (elev, azim)"
    and st: "hemi_step env a p view h ls = Inr ls'"
  shows "(\<forall>j. j \<noteq> f \<longrightarrow> figures (ls_scene ls') ! j = figures (ls_scene ls) ! j) \<and>
         fig_view (figures (ls_scene ls') ! f) =
           (if drawn p h then Some (azim, elev) else fig_view (figures (ls_scene ls) ! f))"
proof (cases "drawn p h")
  case False
  then have "hemi_step env a p view h ls = Inr ls"
    by (auto simp: hemi_step_def drawn_def Let_def split: option.splits)
  with st False show ?thesis by simp
next
  case True
  then obtain vs fs where vf: "p_hemi_vertices p h = Some vs" "p_hemi_faces p h = Some fs"
    and d: "0 < length (hemi_data (p_n_lh p) h (p_stc_data p))"
    by (auto simp: drawn_def)
  let ?act = "act_colors_of (p_cmap p) (p_k p) (p_b p) (hemi_data (p_n_lh p) h (p_stc_data p))"
  obtain mw hm s1 where ph: "plot_hemisphere_mesh (offset_hemi0 env vs h) fs (read_morph env h)
      (Some ?act) (ls_scene ls) = ((mw, hm), s1)"
    by (metis surj_pair)
  note f1 = plot_hemisphere_mesh_figures [OF cur ph f]
  then have c1: "current s1 = Some f" and l1: "f < length (figures s1)" using f by simp_all
  have "hemi_step env a p view h ls =
      Inr (ls\<lparr>ls_scene := style_view (a_background a) azim elev s1,
              ls_hemi_meshes := (ls_hemi_meshes ls)(mesh_key h view \<mapsto> hm)\<rparr>)"
    using d vf ns vd ph by (simp add: hemi_step_def Let_def)
  with st have "ls_scene ls' = style_view (a_background a) azim elev s1" by auto
  with f1 style_view_figures [OF c1 l1, of "a_background a" azim elev] True show ?thesis by simp
qed

lemma hemis_loop_camera:
  assumes ns: "a_hemi a \<noteq> ''split''" and cur: "current (ls_scene ls) = Some f"
    and f: "f < length (figures (ls_scene ls))"
    and vd: "views_dict view = Some (elev, azim)"
    and st: "hemis_loop env a p view hs ls = Inr ls'"
  shows "(\<forall>j. j \<noteq> f \<longrightarrow> figures (ls_scene ls') ! j = figures (ls_scene ls) ! j) \<and>
         fig_view (figures (ls_scene ls') ! f) =
           (if \<exists>h \<in> set hs. drawn p h then Some (azim, elev) else fig_view (figures (ls_scene ls) ! f))"
  using cur f st
proof (induction hs arbitrary: ls)
  case Nil
  then show ?case by simp
next
  case (Cons h hs)
  from Cons.prems(3) obtain ls1 where s1: "hemi_step env a p view h ls = Inr ls1"
    and r: "hemis_loop env a p view hs ls1 = Inr ls'"
    by (auto split: sum.splits)
  from hemi_step_nonsplit [OF ns Cons.prems(1) vd, of env p h] s1
  have c1: "current (ls_scene ls1) = Some f"
    and l1: "f < length (figures (ls_scene ls1))"
    using Cons.prems(2) by auto
  note a = hemi_step_camera [OF ns Cons.prems(1,2) vd s1]
  note b = Cons.IH [OF c1 l1 r]
  from a b show ?case by auto
qed

lemma view_step_camera:
  assumes ns: "a_hemi a \<noteq> ''split''" and vd: "views_dict view = Some (elev, azim)"
    and st: "view_step env a p view ls = Inr ls'"
  shows "(\<forall>j < length (figures (ls_scene ls)).
            figures (ls_scene ls') ! j = figures (ls_scene ls) ! j) \<and>
         fig_view (figures (ls_scene ls') ! length (figures (ls_scene ls))) =
           (if \<exists>h \<in> set (p_hemis p). drawn p h then Some (azim, elev) else None)"
proof -
  let ?n = "length (figures (ls_scene ls))"
  obtain fig s1 where nf: "new_figure p (ls_scene ls) = (fig, s1)" by (metis surj_pair)
  note n = new_figure_props [OF nf]
  have old: "\<forall>j < ?n. figures s1 ! j = figures (ls_scene ls) ! j"
    and new: "fig_view (figures s1 ! ?n) = None"
    using nf by (auto simp: new_figure_def ipv_figure_def set_animation_def Let_def nth_append)
  let ?ls1 = "ls\<lparr>ls_figs_row := None, ls_scene := s1, ls_fig := Some fig\<rparr>"
  from st ns nf obtain ls2 where h: "hemis_loop env a p view (p_hemis p) ?ls1 = Inr ls2"
    and e: "ls_scene ls' = ls_scene ls2"
    by (auto simp: view_step_def Let_def split: sum.splits option.splits)
  have c: "current (ls_scene ?ls1) = Some ?n" and l: "?n < length (figures (ls_scene ?ls1))"
    using n by simp_all
  from hemis_loop_camera [OF ns c l vd h] old new show ?thesis
    by (simp add: e)
qed

lemma views_loop_camera:
  assumes ns: "a_hemi a \<noteq> ''split''" and cv: "check_views views = Inr ()"
    and st: "views_loop env a p views ls = Inr ls'"
  shows "(\<forall>j < length (figures (ls_scene ls)).
            figures (ls_scene ls') ! j = figures (ls_scene ls) ! j) \<and>
         (\<forall>i < length views.
            fig_view (figures (ls_scene ls') ! (length (figures (ls_scene ls)) + i)) =
              (if \<exists>h \<in> set (p_hemis p). drawn p h
               then map_option (\<lambda>(elev, azim). (azim, elev)) (views_dict (views ! i))
               else None))"
  using cv st
proof (induction views arbitrary: ls)
  case Nil
  then show ?case by simp
next
  case (Cons view views)
  let ?n = "length (figures (ls_scene ls))"
  from Cons.prems(1) have vd: "views_dict view \<noteq> None" and rest: "check_views views = Inr ()"
    by (simp_all split: if_splits)
  then obtain elev azim where ea: "views_dict view = Some (elev, azim)" by auto
  from Cons.prems(2) obtain ls1 where s1: "view_step env a p view ls = Inr ls1"
    and r: "views_loop env a p views ls1 = Inr ls'"
    by (auto split: sum.splits)
  from view_step_nonsplit [OF ns ea, of env p ls] s1
  have n1: "length (figures (ls_scene ls1)) = Suc ?n" by auto
  note a = view_step_camera [OF ns ea s1]
  note b = Cons.IH [OF rest r, unfolded n1]
  have keep: "\<forall>j < ?n. figures (ls_scene ls') ! j = figures (ls_scene ls) ! j"
    using a b by auto
  have cam: "fig_view (figures (ls_scene ls') ! (?n + i)) =
              (if \<exists>h \<in> set (p_hemis p). drawn p h
               then map_option (\<lambda>(elev, azim). (azim, elev)) (views_dict ((view # views) ! i))
               else None)" if "i < length (view # views)" for i
  proof (cases i)
    case 0
    with a b ea show ?thesis by simp
  next
    case (Suc i')
    with that b show ?thesis by simp
  qed
  from keep cam show ?case by blast
qed


text \<open>
  For \<^verbatim>\<open>hemi\<close> other than \<^verbatim>\<open>'split'\<close>, when at least one hemisphere is drawn: entry
  \<open>i\<close> of the returned list is the \<open>i\<close>-th new figure, and in the scene that is shown
  this figure has the camera of view \<open>i\<close>.
\<close>

lemma figs_show_views:
  assumes ns: "a_hemi a \<noteq> ''split''"
    and run: "plot_source_estimates env a s = (Inr figs, s', v, cb)"
    and subj: "check_subject env = Inr subject"
    and prep: "pse_prepare env a subject = Inr p"
    and dr: "\<exists>h \<in> set (p_hemis p). drawn p h"
    and i: "i < length (normalise_views (a_views a))"
  shows "figs ! i = OneFig (length (figures s) + i) \<and>
         (\<exists>elev azim. views_dict (normalise_views (a_views a) ! i) = Some (elev, azim) \<and>
            fig_view (figures s' ! (length (figures s) + i)) = Some (azim, elev))"
proof -
  from run obtain views subjects_dir subject' foreground
    where val: "pse_validate env a = Inr (views, subjects_dir, subject', foreground)"
    by (cases "pse_validate env a") (auto simp: plot_source_estimates_def)
  note vf = pse_validate_Inr [OF val]
  from vf subj have s_eq: "subject' = subject" by simp
  from vf have views: "views = normalise_views (a_views a)" and cv: "check_views views = Inr ()"
    by blast+
  let ?init = "\<lparr>ls_scene = s, ls_fig = None, ls_figs_row = None,
                 ls_hemi_meshes = Map.empty, ls_figs = []\<rparr>"
  from run val prep s_eq obtain ls where l: "views_loop env a p views ?init = Inr ls"
    by (cases "views_loop env a p views ?init") (auto simp: plot_source_estimates_def)
  from run val prep s_eq l obtain s1 where
    c: "pse_children a foreground (p_title p) (ls_figs ls) (ls_scene ls) = Inr s1"
    by (cases "pse_children a foreground (p_title p) (ls_figs ls) (ls_scene ls)")
       (auto simp: plot_source_estimates_def)
  from run val prep s_eq l c obtain s2 where
    k: "pse_controls env a p views (ls_hemi_meshes ls) s1 = Inr (s2, v, cb)"
    and s': "s' = ipv_show s2" and figs: "figs = ls_figs ls"
    by (cases "pse_controls env a p views (ls_hemi_meshes ls) s1")
       (auto simp: plot_source_estimates_def)
  from views_loop_nonsplit [OF ns cv, of env p ?init] l
  have lf: "ls_figs ls = map (\<lambda>i. OneFig (length (figures s) + i)) [0..<length views]"
    and len: "length (figures (ls_scene ls)) = length (figures s) + length views"
    by auto
  from views_loop_camera [OF ns cv l] dr i
  have cam: "fig_view (figures (ls_scene ls) ! (length (figures s) + i)) =
      map_option (\<lambda>(elev, azim). (azim, elev)) (views_dict (views ! i))"
    by (simp add: views)
  have "views_kept (ls_scene ls) s'"
    unfolding s'
    by (rule views_kept_trans [OF views_kept_children [OF c]
          views_kept_trans [OF views_kept_controls [OF k] views_kept_show]])
  with len i have kept: "fig_view (figures s' ! (length (figures s) + i)) =
      fig_view (figures (ls_scene ls) ! (length (figures s) + i))"
    by (simp add: views_kept_def views)
  from cv i have "views_dict (views ! i) \<noteq> None"
    by (simp add: check_views_cases views views_dict_None split: if_splits)
  then obtain elev azim where ea: "views_dict (views ! i) = Some (elev, azim)" by auto
  from i have "figs ! i = OneFig (length (figures s) + i)"
    by (simp add: figs lf views)
  with kept cam ea show ?thesis by (simp add: views)
qed

lemma figs_show_views_example:
  "(case plot_source_estimates ex_env (ex_args\<lparr>a_views := ViewSeq [''lat'', ''med'']\<rparr>) empty_scene of
      (r, s', v, cb) \<Rightarrow>
        r = Inr [OneFig 0, OneFig 1] \<and>
        map fig_view (figures s') = [Some (0, 5), Some (180, 5)])"
  by code_simp

end
